theory Spec2Isabelle
  imports Main "HOL-Library.Sublist"
begin

section \<open>Strings\<close>

text \<open>
  A JavaScript string is a sequence of code units. The model uses \<open>string\<close>, reading
  each \<open>char\<close> as one code unit below 256; every character the filter engine tests for
  (separators, anchors, regular-expression metacharacters) lies in that range.
\<close>

abbreviation BSL :: char where
  "BSL \<equiv> CHR 0x5C"

abbreviation LF :: char where
  "LF \<equiv> CHR 0x0A"

definition startsWith :: "string \<Rightarrow> string \<Rightarrow> bool" where
  "startsWith s p = prefix p s"

definition endsWith :: "string \<Rightarrow> string \<Rightarrow> bool" where
  "endsWith s p = suffix p s"

text \<open>\<open>s.includes(sub)\<close>: \<open>sub\<close> occurs in \<open>s\<close> as a contiguous substring.\<close>

fun str_includes :: "string \<Rightarrow> string \<Rightarrow> bool" where
  "str_includes [] sub = (sub = [])"
| "str_includes (c # cs) sub = (prefix sub (c # cs) \<or> str_includes cs sub)"

text \<open>\<open>s.split(d)\<close> for a one-character separator; the result is never empty.\<close>

fun split_on :: "char \<Rightarrow> string \<Rightarrow> string list" where
  "split_on d [] = [[]]"
| "split_on d (c # cs) =
     (if c = d then [] # split_on d cs
      else (case split_on d cs of
              [] \<Rightarrow> [[c]]
            | w # ws \<Rightarrow> (c # w) # ws))"

text \<open>
  White space as \<open>trim()\<close> and the regular-expression class \<open>\s\<close> see it (tab, line
  feed, vertical tab, form feed, carriage return, space, no-break space), and the line
  terminators that \<open>.\<close> refuses.
\<close>

definition isWhiteSpace :: "char \<Rightarrow> bool" where
  "isWhiteSpace c = (c \<in> set [CHR 0x09, CHR 0x0A, CHR 0x0B, CHR 0x0C, CHR 0x0D, CHR 0x20, CHR 0xA0])"

definition isLineTerminator :: "char \<Rightarrow> bool" where
  "isLineTerminator c = (c = CHR 0x0A \<or> c = CHR 0x0D)"

definition isDot :: "char \<Rightarrow> bool" where
  "isDot c = (\<not> isLineTerminator c)"

definition trim :: "string \<Rightarrow> string" where
  "trim s = rev (dropWhile isWhiteSpace (rev (dropWhile isWhiteSpace s)))"

text \<open>
  The regular expressions \<open>/^(.+?)SEP(.+)$/\<close> of the parser: the shortest non-empty
  prefix that is followed by \<open>SEP\<close> and a non-empty rest, with no line terminator on
  either side. \<open>pre\<close> is the part of the first group consumed so far.
\<close>

fun matchLazySep :: "string \<Rightarrow> string \<Rightarrow> string \<Rightarrow> (string \<times> string) option" where
  "matchLazySep sep pre [] = None"
| "matchLazySep sep pre (c # cs) =
     (if pre \<noteq> [] \<and> prefix sep (c # cs) \<and> drop (length sep) (c # cs) \<noteq> []
         \<and> list_all isDot (drop (length sep) (c # cs))
      then Some (pre, drop (length sep) (c # cs))
      else if isDot c then matchLazySep sep (pre @ [c]) cs
      else None)"

section \<open>Pattern translator\<close>

text \<open>The character class \<open>[.+?^${}()|[\]\\]\<close> of \<open>escapeRegex\<close> and \<open>ruleToRegex\<close>.\<close>

definition regexSpecial :: "char \<Rightarrow> bool" where
  "regexSpecial c = (c \<in> set ''.+?^${}()|[]'' \<or> c = BSL)"

definition escapeRegex :: "string \<Rightarrow> string" where
  "escapeRegex str = concat (map (\<lambda>c. if regexSpecial c then [BSL, c] else [c]) str)"

text \<open>\<open>s.replace(/c/g, r)\<close> for a single character \<open>c\<close>.\<close>

definition replaceAllChar :: "char \<Rightarrow> string \<Rightarrow> string \<Rightarrow> string" where
  "replaceAllChar c r s = concat (map (\<lambda>x. if x = c then r else [x]) s)"

text \<open>\<open>s.replace(/^p/, r)\<close> and \<open>s.replace(/p$/, r)\<close> for a literal \<open>p\<close>.\<close>

definition replacePrefix :: "string \<Rightarrow> string \<Rightarrow> string \<Rightarrow> string" where
  "replacePrefix p r s = (if prefix p s then r @ drop (length p) s else s)"

definition replaceSuffix :: "string \<Rightarrow> string \<Rightarrow> string \<Rightarrow> string" where
  "replaceSuffix p r s = (if suffix p s then take (length s - length p) s @ r else s)"

definition separatorFragment :: string where
  "separatorFragment = ''([^a-zA-Z0-9_.%-]|$)''"

definition domainAnchorFragment :: string where
  "domainAnchorFragment = ''^https?://([a-z0-9-]+'' @ [BSL] @ ''.)*''"

text \<open>
  \<open>ruleToRegex\<close>: a pattern between slashes is passed through without them
  (\<open>pattern.slice(1, -1)\<close>); otherwise the six replacements run in the source's order,
  the escaping first.
\<close>

definition ruleToRegex :: "string \<Rightarrow> string" where
  "ruleToRegex pattern =
     (if startsWith pattern ''/'' \<and> endsWith pattern ''/'' then butlast (tl pattern)
      else
        replaceSuffix [BSL, CHR ''|''] ''$''
          (replacePrefix [BSL, CHR ''|''] ''^''
            (replacePrefix [BSL, CHR ''|'', BSL, CHR ''|''] domainAnchorFragment
              (replaceAllChar CHR ''^'' separatorFragment
                (replaceAllChar CHR ''*'' ''.*''
                  (escapeRegex pattern))))))"

section \<open>Parsed rules\<close>

text \<open>
  The parser's rule objects are tagged by their \<open>type\<close> string. \<open>options\<close> is the
  object built by \<open>parseRuleOptions\<close>; a property that was never assigned is \<open>None\<close>
  (arrays) or \<open>False\<close> (flags that are only ever set to \<open>true\<close>).
\<close>

record ruleOptions =
  opt_domains :: "string list option"
  thirdParty :: bool
  firstParty :: bool
  opt_resourceTypes :: "string list option"
  important :: bool

datatype ruleType = ElementException | ElementHide | Scriptlet | NetworkException | NetworkBlock

text \<open>
  \<open>NetworkRule isException pattern originalRule options\<close>; a hosts-file rule has no
  \<open>options\<close> property at all.
\<close>

datatype parsedRule =
    ElementExceptionRule "string list" string
  | ElementHideRule "string list" string
  | ScriptletRule "string list" string
  | NetworkRule bool string string "ruleOptions option"

fun rule_type :: "parsedRule \<Rightarrow> ruleType" where
  "rule_type (ElementExceptionRule ds sel) = ElementException"
| "rule_type (ElementHideRule ds sel) = ElementHide"
| "rule_type (ScriptletRule ds scr) = Scriptlet"
| "rule_type (NetworkRule exc pat orig opts) = (if exc then NetworkException else NetworkBlock)"

text \<open>\<open>rule.domains\<close>, \<open>rule.selector\<close>, \<open>rule.pattern\<close>, \<open>rule.options\<close>: \<open>None\<close> is \<open>undefined\<close>.\<close>

fun rule_domains :: "parsedRule \<Rightarrow> string list option" where
  "rule_domains (ElementExceptionRule ds sel) = Some ds"
| "rule_domains (ElementHideRule ds sel) = Some ds"
| "rule_domains (ScriptletRule ds scr) = Some ds"
| "rule_domains (NetworkRule exc pat orig opts) = None"

fun rule_selector :: "parsedRule \<Rightarrow> string option" where
  "rule_selector (ElementExceptionRule ds sel) = Some sel"
| "rule_selector (ElementHideRule ds sel) = Some sel"
| "rule_selector (ScriptletRule ds scr) = None"
| "rule_selector (NetworkRule exc pat orig opts) = None"

fun rule_pattern :: "parsedRule \<Rightarrow> string option" where
  "rule_pattern (NetworkRule exc pat orig opts) = Some pat"
| "rule_pattern r = None"

fun rule_options :: "parsedRule \<Rightarrow> ruleOptions option" where
  "rule_options (NetworkRule exc pat orig opts) = opts"
| "rule_options r = None"

section \<open>Rule grammar parser\<close>

text \<open>\<open>s.split(',').filter(d => d)\<close>\<close>

definition splitDomains :: "string \<Rightarrow> string list" where
  "splitDomains s = filter (\<lambda>d. d \<noteq> []) (split_on CHR '','' s)"

definition parseElementHidingRule :: "string \<Rightarrow> parsedRule option" where
  "parseElementHidingRule rule =
     (case matchLazySep ''#@#'' [] rule of
        Some (ds, sel) \<Rightarrow> Some (ElementExceptionRule (splitDomains ds) sel)
      | None \<Rightarrow>
          (case matchLazySep ''##'' [] rule of
             Some (ds, sel) \<Rightarrow> Some (ElementHideRule (splitDomains ds) sel)
           | None \<Rightarrow>
               if startsWith rule ''##'' then Some (ElementHideRule [] (drop 2 rule))
               else None))"

definition parseScriptletRule :: "string \<Rightarrow> parsedRule option" where
  "parseScriptletRule rule =
     (case matchLazySep ''#%#'' [] rule of
        Some (ds, scr) \<Rightarrow> Some (ScriptletRule (splitDomains ds) scr)
      | None \<Rightarrow> None)"

definition emptyOptions :: ruleOptions where
  "emptyOptions = \<lparr>opt_domains = None, thirdParty = False, firstParty = False,
                    opt_resourceTypes = None, important = False\<rparr>"

text \<open>\<open>options.resourceTypes = options.resourceTypes || []; options.resourceTypes.push(t)\<close>\<close>

definition pushResourceType :: "string \<Rightarrow> ruleOptions \<Rightarrow> ruleOptions" where
  "pushResourceType t opts =
     opts\<lparr>opt_resourceTypes :=
            Some ((case opt_resourceTypes opts of None \<Rightarrow> [] | Some ts \<Rightarrow> ts) @ [t])\<rparr>"

text \<open>
  One round of the loop of \<open>parseRuleOptions\<close>: \<open>[key, value] = part.split('=')\<close>, then
  the \<open>switch\<close>; an unknown key changes nothing.
\<close>

definition applyOption :: "ruleOptions \<Rightarrow> string \<Rightarrow> ruleOptions" where
  "applyOption opts part =
     (case split_on CHR ''='' part of
        [] \<Rightarrow> opts
      | key # rest \<Rightarrow>
          if key = ''domain'' then
            opts\<lparr>opt_domains :=
                   Some (case rest of
                           [] \<Rightarrow> []
                         | v # _ \<Rightarrow> if v = [] then [] else split_on CHR ''|'' v)\<rparr>
          else if key = ''third-party'' \<or> key = ''3p'' then opts\<lparr>thirdParty := True\<rparr>
          else if key = ''~third-party'' \<or> key = ''1p'' then opts\<lparr>firstParty := True\<rparr>
          else if key = ''script'' then pushResourceType ''script'' opts
          else if key = ''image'' then pushResourceType ''image'' opts
          else if key = ''stylesheet'' \<or> key = ''css'' then pushResourceType ''stylesheet'' opts
          else if key = ''xmlhttprequest'' \<or> key = ''xhr'' then
            pushResourceType ''xmlhttprequest'' opts
          else if key = ''subdocument'' \<or> key = ''frame'' then pushResourceType ''sub_frame'' opts
          else if key = ''important'' then opts\<lparr>important := True\<rparr>
          else opts)"

definition parseRuleOptions :: "string \<Rightarrow> ruleOptions" where
  "parseRuleOptions optionString = foldl applyOption emptyOptions (split_on CHR '','' optionString)"

definition parseNetworkRule :: "string \<Rightarrow> parsedRule" where
  "parseNetworkRule rule =
     (let isException = startsWith rule ''@@'';
          ruleText = (if isException then drop 2 rule else rule)
      in case matchLazySep ''$'' [] ruleText of
           Some (text, optionString) \<Rightarrow>
             NetworkRule isException (ruleToRegex text) rule (Some (parseRuleOptions optionString))
         | None \<Rightarrow>
             NetworkRule isException (ruleToRegex ruleText) rule (Some emptyOptions))"

definition parseAdblockRule :: "string \<Rightarrow> parsedRule option" where
  "parseAdblockRule rule =
     (if str_includes rule ''##'' \<or> str_includes rule ''#@#'' then parseElementHidingRule rule
      else if str_includes rule ''#%#'' \<or> str_includes rule ''#@%#'' then parseScriptletRule rule
      else Some (parseNetworkRule rule))"

text \<open>The loop of \<open>parseAdblockList\<close> over the lines, \<open>rules\<close> being the array built so far.\<close>

fun parseAdblockLines :: "parsedRule list \<Rightarrow> string list \<Rightarrow> parsedRule list" where
  "parseAdblockLines rules [] = rules"
| "parseAdblockLines rules (line # lines) =
     (let trimmed = trim line in
      if trimmed = [] \<or> startsWith trimmed ''!'' \<or> startsWith trimmed ''[''
      then parseAdblockLines rules lines
      else (case parseAdblockRule trimmed of
              Some parsed \<Rightarrow> parseAdblockLines (rules @ [parsed]) lines
            | None \<Rightarrow> parseAdblockLines rules lines))"

definition parseAdblockList :: "string \<Rightarrow> parsedRule list" where
  "parseAdblockList text = parseAdblockLines [] (split_on LF text)"

text \<open>
  The hosts entry \<open>/^(?:0\.0\.0\.0|127\.0\.0\.1)\s+(.+)$/\<close>: after the address, \<open>\s+\<close>
  takes as much white space as it can and gives it back one character at a time until the
  rest is a non-empty run without line terminators; the capture is that rest.
\<close>

definition stripHostsAddress :: "string \<Rightarrow> string option" where
  "stripHostsAddress s =
     (if prefix ''0.0.0.0'' s then Some (drop 7 s)
      else if prefix ''127.0.0.1'' s then Some (drop 9 s)
      else None)"

fun hostsCapture :: "nat \<Rightarrow> string \<Rightarrow> string option" where
  "hostsCapture 0 r = None"
| "hostsCapture (Suc k) r =
     (let rest = drop (Suc k) r in
      if rest \<noteq> [] \<and> list_all isDot rest then Some rest else hostsCapture k r)"

definition matchHostsEntry :: "string \<Rightarrow> string option" where
  "matchHostsEntry s =
     (case stripHostsAddress s of
        None \<Rightarrow> None
      | Some r \<Rightarrow> hostsCapture (length (takeWhile isWhiteSpace r)) r)"

definition hostsPattern :: "string \<Rightarrow> string" where
  "hostsPattern domain = domainAnchorFragment @ escapeRegex domain @ ''(/|$)''"

text \<open>\<open>match[1].split('#')[0].trim()\<close>\<close>

definition hostsDomain :: "string \<Rightarrow> string" where
  "hostsDomain m = trim (case split_on CHR ''#'' m of [] \<Rightarrow> [] | d # _ \<Rightarrow> d)"

fun parseHostsLines :: "parsedRule list \<Rightarrow> string list \<Rightarrow> parsedRule list" where
  "parseHostsLines rules [] = rules"
| "parseHostsLines rules (line # lines) =
     (let trimmed = trim line in
      if trimmed = [] \<or> startsWith trimmed ''#'' then parseHostsLines rules lines
      else (case matchHostsEntry trimmed of
              Some m \<Rightarrow>
                (let domain = hostsDomain m in
                 if domain \<noteq> [] \<and> domain \<noteq> ''localhost''
                 then parseHostsLines
                        (rules @ [NetworkRule False (hostsPattern domain) trimmed None]) lines
                 else parseHostsLines rules lines)
            | None \<Rightarrow> parseHostsLines rules lines))"

definition parseHostsFile :: "string \<Rightarrow> parsedRule list" where
  "parseHostsFile text = parseHostsLines [] (split_on LF text)"

definition parseFilterList :: "string \<Rightarrow> string \<Rightarrow> parsedRule list" where
  "parseFilterList text format =
     (if format = ''hosts'' then parseHostsFile text else parseAdblockList text)"

section \<open>Compiled rules\<close>

datatype actionType = Block | Allow

record dnrCondition =
  regexFilter :: "string option"
  urlFilter :: "string option"
  resourceTypes :: "string list option"
  initiatorDomains :: "string list option"
  excludedInitiatorDomains :: "string list option"
  requestDomains :: "string list option"
  domainType :: "string option"

record dnrRule =
  rule_id :: nat
  priority :: nat
  action :: actionType
  condition :: dnrCondition

definition emptyCondition :: dnrCondition where
  "emptyCondition = \<lparr>regexFilter = None, urlFilter = None, resourceTypes = None,
                      initiatorDomains = None, excludedInitiatorDomains = None,
                      requestDomains = None, domainType = None\<rparr>"

definition defaultResourceTypes :: "string list" where
  "defaultResourceTypes =
     [''script'', ''image'', ''stylesheet'', ''sub_frame'',
      ''xmlhttprequest'', ''media'', ''font'', ''other'']"

text \<open>
  \<open>compileToDNR\<close>. The source wraps the body in \<open>try\<close> and returns \<open>null\<close> from the
  \<open>catch\<close>; on a rule object of the shape the parser builds no statement of the body
  throws, so the result is always a rule.
\<close>

definition compileToDNR :: "parsedRule \<Rightarrow> nat \<Rightarrow> dnrRule option" where
  "compileToDNR rule n =
     (let opts = rule_options rule;
          ds = (case opts of None \<Rightarrow> None | Some os \<Rightarrow> opt_domains os);
          includeDomains = (case ds of None \<Rightarrow> []
                            | Some xs \<Rightarrow> filter (\<lambda>d. \<not> startsWith d ''~'') xs);
          excludeDomains = (case ds of None \<Rightarrow> []
                            | Some xs \<Rightarrow> map tl (filter (\<lambda>d. startsWith d ''~'') xs))
      in Some \<lparr>rule_id = n, priority = 1, action = Block,
               condition = emptyCondition
                 \<lparr>regexFilter := rule_pattern rule,
                  resourceTypes :=
                    Some (case opts of
                            None \<Rightarrow> defaultResourceTypes
                          | Some os \<Rightarrow> (case opt_resourceTypes os of
                                         None \<Rightarrow> defaultResourceTypes
                                       | Some ts \<Rightarrow> ts)),
                  initiatorDomains := (if includeDomains \<noteq> [] then Some includeDomains else None),
                  excludedInitiatorDomains :=
                    (if excludeDomains \<noteq> [] then Some excludeDomains else None),
                  domainType :=
                    (case opts of
                       None \<Rightarrow> None
                     | Some os \<Rightarrow> if thirdParty os then Some ''thirdParty''
                                 else if firstParty os then Some ''firstParty'' else None)\<rparr>\<rparr>)"

text \<open>A user-authored rule; \<open>ctype\<close> is its \<open>type\<close> string.\<close>

record customRule =
  custom_id :: nat
  ctype :: string
  custom_pattern :: string
  custom_resourceTypes :: "string list option"
  createdAt :: nat

definition compileCustomToDNR :: "customRule \<Rightarrow> nat \<Rightarrow> dnrRule option" where
  "compileCustomToDNR rule n =
     (if ctype rule = ''block'' then
        Some \<lparr>rule_id = n, priority = 2, action = Block,
              condition = emptyCondition
                \<lparr>urlFilter := Some (custom_pattern rule),
                 resourceTypes :=
                   Some (case custom_resourceTypes rule of
                           None \<Rightarrow> [''main_frame'', ''sub_frame'', ''script'', ''image'',
                                     ''stylesheet'', ''xmlhttprequest'']
                         | Some ts \<Rightarrow> ts)\<rparr>\<rparr>
      else if ctype rule = ''allow'' then
        Some \<lparr>rule_id = n, priority = 3, action = Allow,
              condition = emptyCondition\<lparr>urlFilter := Some (custom_pattern rule)\<rparr>\<rparr>
      else None)"

text \<open>An entry of the \<open>filterLists\<close> map; \<open>None\<close> is a property the cached object lacks.\<close>

record filterData =
  list_id :: string
  list_name :: "string option"
  list_rules :: "parsedRule list option"
  rulesCount :: nat
  lastUpdated :: nat
  list_category :: "string option"

text \<open>
  \<open>compileRules\<close>, its loops on the pair of the \<open>compiledRules\<close> array and the counter
  \<open>ruleId\<close>. The counter advances for every network-block rule and every custom rule,
  whether or not a rule comes out.
\<close>

fun compileListRules :: "dnrRule list \<times> nat \<Rightarrow> parsedRule list \<Rightarrow> dnrRule list \<times> nat" where
  "compileListRules (acc, n) [] = (acc, n)"
| "compileListRules (acc, n) (rule # rules) =
     (if rule_type rule = NetworkBlock then
        (case compileToDNR rule n of
           Some dnrRule \<Rightarrow> compileListRules (acc @ [dnrRule], Suc n) rules
         | None \<Rightarrow> compileListRules (acc, Suc n) rules)
      else compileListRules (acc, n) rules)"

definition maxListRules :: nat where
  "maxListRules = 30000"

fun compileLists :: "dnrRule list \<times> nat \<Rightarrow> (string \<times> filterData) list \<Rightarrow> dnrRule list \<times> nat" where
  "compileLists st [] = st"
| "compileLists st ((listId, listData) # rest) =
     (case list_rules listData of
        None \<Rightarrow> compileLists st rest
      | Some rules \<Rightarrow>
          (let st' = compileListRules st rules in
           if length (fst st') \<ge> maxListRules then st' else compileLists st' rest))"

fun compileCustomRules :: "dnrRule list \<times> nat \<Rightarrow> customRule list \<Rightarrow> dnrRule list \<times> nat" where
  "compileCustomRules (acc, n) [] = (acc, n)"
| "compileCustomRules (acc, n) (rule # rules) =
     (case compileCustomToDNR rule n of
        Some dnrRule \<Rightarrow> compileCustomRules (acc @ [dnrRule], Suc n) rules
      | None \<Rightarrow> compileCustomRules (acc, Suc n) rules)"

definition firstRuleId :: nat where
  "firstRuleId = 100000"

text \<open>The list-sourced part of the batch, and the whole batch.\<close>

definition compileListBatch :: "(string \<times> filterData) list \<Rightarrow> dnrRule list" where
  "compileListBatch fls = fst (compileLists ([], firstRuleId) fls)"

definition compileBatch :: "(string \<times> filterData) list \<Rightarrow> customRule list \<Rightarrow> dnrRule list" where
  "compileBatch fls customs =
     fst (compileCustomRules (compileLists ([], firstRuleId) fls) customs)"

section \<open>Rule manager\<close>

text \<open>\<open>ruleRanges\<close>: category, \<open>start\<close>, \<open>end\<close>.\<close>

definition ruleRanges :: "(string \<times> nat \<times> nat) list" where
  "ruleRanges =
     [(''ads'', 1, 9999), (''trackers'', 10000, 19999), (''social'', 20000, 29999),
      (''cryptominers'', 30000, 39999), (''malware'', 40000, 49999),
      (''whitelist'', 50000, 59999), (''blacklist'', 60000, 69999),
      (''custom'', 100000, 199999)]"

definition inRange :: "string \<Rightarrow> nat \<Rightarrow> bool" where
  "inRange category n =
     (case map_of ruleRanges category of
        None \<Rightarrow> False
      | Some (start, stop) \<Rightarrow> start \<le> n \<and> n < stop)"

definition allResourceTypes :: "string list" where
  "allResourceTypes =
     [''main_frame'', ''sub_frame'', ''script'', ''image'', ''stylesheet'',
      ''xmlhttprequest'', ''media'', ''font'', ''other'']"

text \<open>
  The \<open>rules\<close> arrays that \<open>applyWhitelistRules\<close> and \<open>applyBlacklistRules\<close> build from
  the domains of the set, in its iteration order, \<open>n\<close> being \<open>ruleId\<close>.
\<close>

fun whitelistRulesFrom :: "nat \<Rightarrow> string list \<Rightarrow> dnrRule list" where
  "whitelistRulesFrom n [] = []"
| "whitelistRulesFrom n (domain # domains) =
     \<lparr>rule_id = n, priority = 10, action = Allow,
      condition = emptyCondition\<lparr>initiatorDomains := Some [domain],
                                 resourceTypes := Some allResourceTypes\<rparr>\<rparr>
     # \<lparr>rule_id = Suc n, priority = 10, action = Allow,
        condition = emptyCondition\<lparr>requestDomains := Some [domain],
                                   resourceTypes := Some allResourceTypes\<rparr>\<rparr>
     # whitelistRulesFrom (Suc (Suc n)) domains"

definition whitelistRules :: "string list \<Rightarrow> dnrRule list" where
  "whitelistRules whitelist = whitelistRulesFrom 50000 whitelist"

fun blacklistRulesFrom :: "nat \<Rightarrow> string list \<Rightarrow> dnrRule list" where
  "blacklistRulesFrom n [] = []"
| "blacklistRulesFrom n (domain # domains) =
     \<lparr>rule_id = n, priority = 5, action = Block,
      condition = emptyCondition\<lparr>requestDomains := Some [domain],
                                 resourceTypes := Some allResourceTypes\<rparr>\<rparr>
     # blacklistRulesFrom (Suc n) domains"

definition blacklistRules :: "string list \<Rightarrow> dnrRule list" where
  "blacklistRules blacklist = blacklistRulesFrom 60000 blacklist"

section \<open>Domain matcher and cosmetic lookup\<close>

definition domainMatches :: "string \<Rightarrow> string \<Rightarrow> bool" where
  "domainMatches domain entry = (domain = entry \<or> endsWith domain (''.'' @ entry))"

text \<open>The loop of \<open>ruleApplies\<close> on the pair of flags \<open>(applies, excluded)\<close>.\<close>

fun scanDomains :: "bool \<times> bool \<Rightarrow> string list \<Rightarrow> string \<Rightarrow> bool \<times> bool" where
  "scanDomains (applies, excluded) [] domain = (applies, excluded)"
| "scanDomains (applies, excluded) (ruleDomain # rest) domain =
     (if startsWith ruleDomain ''~'' then
        scanDomains (applies, excluded \<or> domainMatches domain (tl ruleDomain)) rest domain
      else
        scanDomains (applies \<or> domainMatches domain ruleDomain, excluded) rest domain)"

definition ruleApplies :: "parsedRule \<Rightarrow> string \<Rightarrow> bool" where
  "ruleApplies rule domain =
     (case rule_domains rule of
        None \<Rightarrow> True
      | Some ds \<Rightarrow>
          if ds = [] then True
          else (case scanDomains (False, False) ds domain of
                  (applies, excluded) \<Rightarrow>
                    (if \<not> applies \<and> list_all (\<lambda>d. startsWith d ''~'') ds then True
                     else applies) \<and> \<not> excluded))"

text \<open>The inner and the outer loop of \<open>getElementHidingRules\<close>, \<open>acc\<close> being \<open>rules\<close>.\<close>

fun collectSelectors :: "string list \<Rightarrow> parsedRule list \<Rightarrow> string \<Rightarrow> string list" where
  "collectSelectors acc [] domain = acc"
| "collectSelectors acc (rule # rules) domain =
     (if rule_type rule = ElementHide \<and> ruleApplies rule domain then
        (case rule_selector rule of
           Some sel \<Rightarrow> collectSelectors (acc @ [sel]) rules domain
         | None \<Rightarrow> collectSelectors acc rules domain)
      else collectSelectors acc rules domain)"

fun collectLists :: "string list \<Rightarrow> (string \<times> filterData) list \<Rightarrow> string \<Rightarrow> string list" where
  "collectLists acc [] domain = acc"
| "collectLists acc ((listId, listData) # rest) domain =
     (case list_rules listData of
        None \<Rightarrow> collectLists acc rest domain
      | Some rules \<Rightarrow> collectLists (collectSelectors acc rules domain) rest domain)"

text \<open>\<open>[...new Set(xs)]\<close>: the elements in the order of their first occurrence.\<close>

fun setInsertAll :: "'a list \<Rightarrow> 'a list \<Rightarrow> 'a list" where
  "setInsertAll seen [] = seen"
| "setInsertAll seen (x # xs) =
     (if x \<in> set seen then setInsertAll seen xs else setInsertAll (seen @ [x]) xs)"

definition getElementHidingRules :: "(string \<times> filterData) list \<Rightarrow> string \<Rightarrow> string list" where
  "getElementHidingRules fls domain = setInsertAll [] (collectLists [] fls domain)"

section \<open>Engine state\<close>

record filterSource =
  src_name :: string
  src_url :: string
  src_enabled :: bool
  src_category :: string
  src_format :: "string option"

text \<open>
  The fields of a \<open>FilterEngine\<close>. \<open>filterLists\<close> is a \<open>Map\<close>, kept in insertion order;
  \<open>sources\<close> is a plain object; \<open>syncLog\<close> records the batches handed to
  \<open>updateDynamicRules\<close>, one entry per call.
\<close>

record engine =
  filterLists :: "(string \<times> filterData) list"
  customRules :: "customRule list"
  compiledRules :: "dnrRule list"
  lastUpdate :: "nat option"
  sources :: "string \<rightharpoonup> filterSource"
  syncLog :: "dnrRule list list"

text \<open>\<open>Map.prototype.has\<close> and \<open>Map.prototype.set\<close> (a new key goes to the end).\<close>

definition map_has :: "(string \<times> 'v) list \<Rightarrow> string \<Rightarrow> bool" where
  "map_has kvs k = (k \<in> set (map fst kvs))"

fun map_set :: "(string \<times> 'v) list \<Rightarrow> string \<Rightarrow> 'v \<Rightarrow> (string \<times> 'v) list" where
  "map_set [] k v = [(k, v)]"
| "map_set ((k', v') # kvs) k v =
     (if k' = k then (k, v) # kvs else (k', v') # map_set kvs k v)"

text \<open>
  Reading \<open>obj[key]\<close> on an object literal: an own property, else a property found on
  \<open>Object.prototype\<close> (all of them functions or objects, hence truthy), else \<open>undefined\<close>.
\<close>

datatype 'a property = Own 'a | Inherited | Undefined

definition objectPrototypeNames :: "string list" where
  "objectPrototypeNames =
     [''constructor'', ''__defineGetter__'', ''__defineSetter__'', ''hasOwnProperty'',
      ''__lookupGetter__'', ''__lookupSetter__'', ''isPrototypeOf'', ''propertyIsEnumerable'',
      ''toString'', ''valueOf'', ''__proto__'', ''toLocaleString'']"

definition getProperty :: "(string \<rightharpoonup> 'a) \<Rightarrow> string \<Rightarrow> 'a property" where
  "getProperty obj key =
     (case obj key of
        Some v \<Rightarrow> Own v
      | None \<Rightarrow> if key \<in> set objectPrototypeNames then Inherited else Undefined)"

text \<open>
  The \<open>name\<close> of an inherited property value: \<open>Object\<close> for the constructor, the
  method's own name for a method, nothing for the prototype object.
\<close>

definition inheritedName :: "string \<Rightarrow> string option" where
  "inheritedName key =
     (if key = ''__proto__'' then None
      else if key = ''constructor'' then Some ''Object''
      else Some key)"

definition compileRules :: "engine \<Rightarrow> engine" where
  "compileRules st =
     (let batch = compileBatch (filterLists st) (customRules st)
      in st\<lparr>compiledRules := batch, syncLog := syncLog st @ [batch]\<rparr>)"

text \<open>
  \<open>updateFilterList\<close>. \<open>fetch\<close> stands for the network: it maps the URL (\<open>None\<close> when
  \<open>source.url\<close> is \<open>undefined\<close>) to the text of an OK response, or to \<open>None\<close> when the
  request fails or the status is not OK, which the source throws and catches. \<open>now\<close>
  is \<open>Date.now()\<close>.
\<close>

definition storeFilterList ::
  "engine \<Rightarrow> string \<Rightarrow> string option \<Rightarrow> string option \<Rightarrow> string \<Rightarrow> nat \<Rightarrow> string \<Rightarrow> engine" where
  "storeFilterList st ident name category format now text =
     (let rules = parseFilterList text format
      in st\<lparr>filterLists :=
              map_set (filterLists st) ident
                \<lparr>list_id = ident, list_name = name, list_rules = Some rules,
                 rulesCount = length rules, lastUpdated = now, list_category = category\<rparr>\<rparr>)"

definition updateFilterList ::
  "(string option \<Rightarrow> string option) \<Rightarrow> nat \<Rightarrow> engine \<Rightarrow> string \<Rightarrow> engine" where
  "updateFilterList fetch now st ident =
     (case getProperty (sources st) ident of
        Undefined \<Rightarrow> st
      | Own source \<Rightarrow>
          (case fetch (Some (src_url source)) of
             None \<Rightarrow> st
           | Some text \<Rightarrow>
               storeFilterList st ident (Some (src_name source)) (Some (src_category source))
                 (case src_format source of None \<Rightarrow> ''adblock'' | Some f \<Rightarrow> f) now text)
      | Inherited \<Rightarrow>
          (case fetch None of
             None \<Rightarrow> st
           | Some text \<Rightarrow> storeFilterList st ident (inheritedName ident) None ''adblock'' now text))"

text \<open>
  \<open>toggleFilterList\<close>. On an inherited property the assignment to \<open>enabled\<close> lands on
  the inherited object, outside the engine's fields.
\<close>

definition toggleFilterList ::
  "(string option \<Rightarrow> string option) \<Rightarrow> nat \<Rightarrow> engine \<Rightarrow> string \<Rightarrow> bool \<Rightarrow> engine" where
  "toggleFilterList fetch now st ident enabled =
     (case getProperty (sources st) ident of
        Undefined \<Rightarrow> st
      | Own source \<Rightarrow>
          (let st1 = st\<lparr>sources := (sources st)(ident \<mapsto> source\<lparr>src_enabled := enabled\<rparr>)\<rparr>;
               st2 = (if enabled \<and> \<not> map_has (filterLists st1) ident
                      then updateFilterList fetch now st1 ident else st1)
           in compileRules st2)
      | Inherited \<Rightarrow>
          (let st2 = (if enabled \<and> \<not> map_has (filterLists st) ident
                      then updateFilterList fetch now st ident else st)
           in compileRules st2))"

text \<open>The sources a new engine is constructed with.\<close>

definition defaultSources :: "string \<rightharpoonup> filterSource" where
  "defaultSources =
     [''easylist'' \<mapsto>
        \<lparr>src_name = ''EasyList'', src_url = ''https://easylist.to/easylist/easylist.txt'',
         src_enabled = True, src_category = ''ads'', src_format = None\<rparr>,
      ''easyprivacy'' \<mapsto>
        \<lparr>src_name = ''EasyPrivacy'', src_url = ''https://easylist.to/easylist/easyprivacy.txt'',
         src_enabled = True, src_category = ''trackers'', src_format = None\<rparr>,
      ''malware'' \<mapsto>
        \<lparr>src_name = ''Malware Domains'',
         src_url = ''https://malware-filter.gitlab.io/malware-filter/urlhaus-filter-online.txt'',
         src_enabled = True, src_category = ''malware'', src_format = None\<rparr>,
      ''social'' \<mapsto>
        \<lparr>src_name = ''Fanboy Social'', src_url = ''https://easylist.to/easylist/fanboy-social.txt'',
         src_enabled = True, src_category = ''social'', src_format = None\<rparr>,
      ''annoyances'' \<mapsto>
        \<lparr>src_name = ''Fanboy Annoyances'',
         src_url = ''https://easylist.to/easylist/fanboy-annoyance.txt'',
         src_enabled = False, src_category = ''annoyances'', src_format = None\<rparr>,
      ''stevenblack'' \<mapsto>
        \<lparr>src_name = ''StevenBlack Hosts'',
         src_url = ''https://raw.githubusercontent.com/StevenBlack/hosts/master/hosts'',
         src_enabled = True, src_category = ''unified'', src_format = Some ''hosts''\<rparr>]"

definition newEngine :: engine where
  "newEngine = \<lparr>filterLists = [], customRules = [], compiledRules = [], lastUpdate = None,
                sources = defaultSources, syncLog = []\<rparr>"

section \<open>The pattern language of the backend\<close>

text \<open>
  A compiled rule hands its \<open>regexFilter\<close> to the browser's rule matcher, which is not
  part of the repository. To state what a translated pattern matches, this section gives
  the fragment of regular-expression syntax that the translator emits its standard
  meaning: literals, escaped punctuation, \<open>.\<close>, character classes with ranges and
  negation, the anchors \<open>^\<close> and \<open>$\<close>, groups, alternation and the quantifiers
  \<open>*\<close>, \<open>+\<close>, \<open>?\<close>; matching is case-sensitive. A pattern that uses anything else
  is \<open>Unsupported\<close> and nothing is said about it; a pattern that is no regular
  expression at all is \<open>Invalid\<close>.
\<close>

datatype rexp =
    Eps
  | Chr char
  | AnyChar
  | CharClass bool "(char \<times> char) list"
  | Bol
  | Eol
  | Group rexp
  | Cat rexp rexp
  | Alt rexp rexp
  | Star rexp
  | Plus rexp
  | Opt rexp

text \<open>A character class is a list of ranges; a single character is a range of one.\<close>

definition inRangeOf :: "char \<Rightarrow> char \<times> char \<Rightarrow> bool" where
  "inRangeOf c r = ((of_char (fst r) :: nat) \<le> of_char c \<and> (of_char c :: nat) \<le> of_char (snd r))"

definition inClass :: "bool \<Rightarrow> (char \<times> char) list \<Rightarrow> char \<Rightarrow> bool" where
  "inClass neg items c = (neg \<noteq> list_ex (inRangeOf c) items)"

text \<open>
  \<open>ends r s i\<close> lists the positions where a match of \<open>r\<close> that starts at position
  \<open>i\<close> of \<open>s\<close> can end. An iteration of a star consumes at least one character,
  so \<open>length s - i\<close> rounds are all a star can make from position \<open>i\<close>.
\<close>

fun starEnds :: "nat \<Rightarrow> (nat \<Rightarrow> nat list) \<Rightarrow> nat \<Rightarrow> nat list" where
  "starEnds 0 step i = [i]"
| "starEnds (Suc n) step i = i # concat (map (starEnds n step) (filter (\<lambda>k. i < k) (step i)))"

primrec ends :: "rexp \<Rightarrow> string \<Rightarrow> nat \<Rightarrow> nat list" where
  "ends Eps s i = [i]"
| "ends (Chr c) s i = (if i < length s \<and> s ! i = c then [Suc i] else [])"
| "ends AnyChar s i = (if i < length s \<and> isDot (s ! i) then [Suc i] else [])"
| "ends (CharClass neg items) s i = (if i < length s \<and> inClass neg items (s ! i) then [Suc i] else [])"
| "ends Bol s i = (if i = 0 then [i] else [])"
| "ends Eol s i = (if i = length s then [i] else [])"
| "ends (Group r) s i = ends r s i"
| "ends (Cat r1 r2) s i = remdups (concat (map (ends r2 s) (ends r1 s i)))"
| "ends (Alt r1 r2) s i = remdups (ends r1 s i @ ends r2 s i)"
| "ends (Star r) s i = remdups (starEnds (length s - i) (ends r s) i)"
| "ends (Plus r) s i = remdups (concat (map (\<lambda>k. starEnds (length s - k) (ends r s) k) (ends r s i)))"
| "ends (Opt r) s i = remdups (i # ends r s i)"

text \<open>The matcher searches: a pattern matches a string if it matches from some position.\<close>

definition regexTest :: "rexp \<Rightarrow> string \<Rightarrow> bool" where
  "regexTest r s = list_ex (\<lambda>i. ends r s i \<noteq> []) [0..<Suc (length s)]"

text \<open>
  The parser reads the pattern once, character by character, with a stack of open groups;
  a frame holds the finished alternatives of its group and the atoms of the current one.
\<close>

datatype regexError = Invalid | Unsupported

datatype pmode =
    Normal
  | Escape
  | ClassStart
  | ClassBody bool "(char \<times> char) list"
  | ClassChar bool "(char \<times> char) list" char
  | ClassDash bool "(char \<times> char) list" char

type_synonym frame = "rexp list \<times> rexp list"

datatype pstate = Failed regexError | Parsing pmode "frame list"

definition mkSeq :: "rexp list \<Rightarrow> rexp" where
  "mkSeq atoms = foldr Cat atoms Eps"

fun altOf :: "rexp list \<Rightarrow> rexp" where
  "altOf [] = Eps"
| "altOf [r] = r"
| "altOf (r # rs) = Alt r (altOf rs)"

definition closeFrame :: "frame \<Rightarrow> rexp" where
  "closeFrame f = altOf (fst f @ [mkSeq (snd f)])"

fun pushAtom :: "rexp \<Rightarrow> frame list \<Rightarrow> pstate" where
  "pushAtom a [] = Failed Invalid"
| "pushAtom a ((alts, atoms) # st) = Parsing Normal ((alts, atoms @ [a]) # st)"

fun isQuantified :: "rexp \<Rightarrow> bool" where
  "isQuantified (Star r) = True"
| "isQuantified (Plus r) = True"
| "isQuantified (Opt r) = True"
| "isQuantified r = False"

fun isAssertion :: "rexp \<Rightarrow> bool" where
  "isAssertion Bol = True"
| "isAssertion Eol = True"
| "isAssertion r = False"

fun quantify :: "char \<Rightarrow> frame list \<Rightarrow> pstate" where
  "quantify q [] = Failed Invalid"
| "quantify q ((alts, atoms) # st) =
     (if atoms = [] then
        (if q = CHR ''?'' \<and> alts = [] \<and> st \<noteq> [] then Failed Unsupported else Failed Invalid)
      else if isAssertion (last atoms) then Failed Unsupported
      else if isQuantified (last atoms) then
        (if q = CHR ''?'' then Parsing Normal ((alts, atoms) # st) else Failed Invalid)
      else Parsing Normal
             ((alts, butlast atoms @
                 [if q = CHR ''*'' then Star (last atoms)
                  else if q = CHR ''+'' then Plus (last atoms)
                  else Opt (last atoms)]) # st))"

definition isPunctuation :: "char \<Rightarrow> bool" where
  "isPunctuation c =
     (let n = (of_char c :: nat) in
      (33 \<le> n \<and> n \<le> 47) \<or> (58 \<le> n \<and> n \<le> 64) \<or> (91 \<le> n \<and> n \<le> 96) \<or> (123 \<le> n \<and> n \<le> 126))"

fun classStep :: "bool \<Rightarrow> (char \<times> char) list \<Rightarrow> char option \<Rightarrow> bool \<Rightarrow> char \<Rightarrow> frame list \<Rightarrow> pstate" where
  "classStep neg items pending dash c st =
     (if c = CHR '']'' then
        pushAtom (CharClass neg
                    (items @ (case pending of None \<Rightarrow> [] | Some p \<Rightarrow> [(p, p)])
                           @ (if dash then [(CHR ''-'', CHR ''-'')] else []))) st
      else if c = BSL \<or> c = CHR ''['' then Failed Unsupported
      else (case pending of
              None \<Rightarrow> Parsing (ClassChar neg items c) st
            | Some p \<Rightarrow>
                if dash then
                  (if (of_char p :: nat) \<le> of_char c then Parsing (ClassBody neg (items @ [(p, c)])) st
                   else Failed Invalid)
                else if c = CHR ''-'' then Parsing (ClassDash neg items p) st
                else Parsing (ClassChar neg (items @ [(p, p)]) c) st))"

fun pstep :: "pstate \<Rightarrow> char \<Rightarrow> pstate" where
  "pstep (Failed e) c = Failed e"
| "pstep (Parsing Normal st) c =
     (if c = BSL then Parsing Escape st
      else if c = CHR ''('' then Parsing Normal (([], []) # st)
      else if c = CHR '')'' then
        (case st of
           f1 # f2 # rest \<Rightarrow> pushAtom (Group (closeFrame f1)) (f2 # rest)
         | _ \<Rightarrow> Failed Invalid)
      else if c = CHR ''|'' then
        (case st of
           [] \<Rightarrow> Failed Invalid
         | (alts, atoms) # rest \<Rightarrow> Parsing Normal ((alts @ [mkSeq atoms], []) # rest))
      else if c = CHR ''*'' \<or> c = CHR ''+'' \<or> c = CHR ''?'' then quantify c st
      else if c = CHR ''['' then Parsing ClassStart st
      else if c = CHR ''.'' then pushAtom AnyChar st
      else if c = CHR ''^'' then pushAtom Bol st
      else if c = CHR ''$'' then pushAtom Eol st
      else if c = CHR ''{'' \<or> c = CHR ''}'' then Failed Unsupported
      else pushAtom (Chr c) st)"
| "pstep (Parsing Escape st) c =
     (if isPunctuation c then pushAtom (Chr c) st else Failed Unsupported)"
| "pstep (Parsing ClassStart st) c =
     (if c = CHR ''^'' then Parsing (ClassBody True []) st
      else if c = CHR '']'' then Failed Unsupported
      else classStep False [] None False c st)"
| "pstep (Parsing (ClassBody neg items) st) c = classStep neg items None False c st"
| "pstep (Parsing (ClassChar neg items p) st) c = classStep neg items (Some p) False c st"
| "pstep (Parsing (ClassDash neg items p) st) c = classStep neg items (Some p) True c st"

fun finish :: "pstate \<Rightarrow> regexError + rexp" where
  "finish (Failed e) = Inl e"
| "finish (Parsing Normal [f]) = Inr (closeFrame f)"
| "finish (Parsing m st) = Inl Invalid"

definition regexParse :: "string \<Rightarrow> regexError + rexp" where
  "regexParse p = finish (foldl pstep (Parsing Normal [([], [])]) p)"

text \<open>
  What the backend does with a pattern: an invalid one is refused and never matches,
  a valid one is searched for in the URL.
\<close>

definition patternMatches :: "string \<Rightarrow> string \<Rightarrow> bool option" where
  "patternMatches p url =
     (case regexParse p of
        Inr r \<Rightarrow> Some (regexTest r url)
      | Inl Invalid \<Rightarrow> Some False
      | Inl Unsupported \<Rightarrow> None)"

section \<open>Notions used to state the properties\<close>

text \<open>
  The domain matcher in the shape of the specification, \<open>applies(rule_includes,
  rule_excludes, domain)\<close>: the source keeps both lists in one \<open>domains\<close> array and marks
  an exclusion by a leading tilde.
\<close>

definition applies :: "string list \<Rightarrow> string list \<Rightarrow> string \<Rightarrow> bool" where
  "applies rule_includes rule_excludes domain =
     ruleApplies (ElementHideRule (rule_includes @ map (\<lambda>e. CHR ''~'' # e) rule_excludes) []) domain"

text \<open>The selectors of the element-hide rules of one list that apply to a domain, in order.\<close>

definition hideSelectors :: "parsedRule list \<Rightarrow> string \<Rightarrow> string list" where
  "hideSelectors rs d =
     concat (map (\<lambda>r. case r of
                         ElementHideRule ds sel \<Rightarrow> if ruleApplies r d then [sel] else []
                       | _ \<Rightarrow> []) rs)"

text \<open>The filter lists with every element-hiding exception rule taken out.\<close>

definition withoutExceptions :: "(string \<times> filterData) list \<Rightarrow> (string \<times> filterData) list" where
  "withoutExceptions fls =
     map (\<lambda>(i, fd). (i, fd\<lparr>list_rules :=
                             map_option (filter (\<lambda>r. rule_type r \<noteq> ElementException))
                               (list_rules fd)\<rparr>)) fls"

text \<open>A cached filter list, and an engine as \<open>initialize\<close> leaves it with one list in the cache.\<close>

definition cachedList :: "string \<Rightarrow> string \<Rightarrow> parsedRule list \<Rightarrow> filterData" where
  "cachedList name category rules =
     \<lparr>list_id = name, list_name = Some name, list_rules = Some rules,
      rulesCount = length rules, lastUpdated = 0, list_category = Some category\<rparr>"

definition adsList :: "(string \<times> filterData) list" where
  "adsList = [(''easylist'', cachedList ''EasyList'' ''ads'' (parseAdblockList ''||ads.example.com^''))]"

definition loadedEngine :: engine where
  "loadedEngine = newEngine\<lparr>filterLists := adsList\<rparr>"

text \<open>
  The invariant of the compilation loops: the ids of the rules compiled so far increase
  strictly, start at \<open>firstRuleId\<close> and lie below the counter.
\<close>

definition ids_ok :: "dnrRule list \<times> nat \<Rightarrow> bool" where
  "ids_ok st =
     (sorted_wrt (<) (map rule_id (fst st))
      \<and> (\<forall>d\<in>set (fst st). firstRuleId \<le> rule_id d \<and> rule_id d < snd st))"


text \<open>The rules compiled from list rules and from custom rules, each paired with its id.\<close>

definition listCompiled :: "(parsedRule \<times> nat) list \<Rightarrow> dnrRule list" where
  "listCompiled rs =
     List.map_filter (\<lambda>(r, n). if rule_type r = NetworkBlock then compileToDNR r n else None) rs"

definition customCompiled :: "(customRule \<times> nat) list \<Rightarrow> dnrRule list" where
  "customCompiled cs = List.map_filter (\<lambda>(c, n). compileCustomToDNR c n) cs"

definition exampleListRule :: parsedRule where
  "exampleListRule =
     NetworkRule False (ruleToRegex ''||ads.example.com'') ''||ads.example.com'' (Some emptyOptions)"

definition exampleAllow :: customRule where
  "exampleAllow = \<lparr>custom_id = 1, ctype = ''allow'', custom_pattern = ''||ads.example.com/safe.js'',
                    custom_resourceTypes = None, createdAt = 1\<rparr>"

definition exampleBlock :: customRule where
  "exampleBlock = \<lparr>custom_id = 2, ctype = ''block'', custom_pattern = ''||tracker.example.net'',
                    custom_resourceTypes = None, createdAt = 2\<rparr>"

text \<open>
  Every rule of one tier has a lower priority than every rule of another; the order of the
  five tiers as the specification words it, and as the constants of the code give it.
\<close>

definition tierBelow :: "dnrRule list \<Rightarrow> dnrRule list \<Rightarrow> bool" where
  "tierBelow lower upper = (\<forall>l\<in>set lower. \<forall>u\<in>set upper. priority l < priority u)"

definition specPriorityOrder ::
  "dnrRule list \<Rightarrow> dnrRule list \<Rightarrow> dnrRule list \<Rightarrow> dnrRule list \<Rightarrow> dnrRule list \<Rightarrow> bool" where
  "specPriorityOrder userAllows userBlocks whitelistAllows blacklistBlocks listBlocks =
     (tierBelow userBlocks userAllows \<and> tierBelow whitelistAllows userBlocks
      \<and> tierBelow blacklistBlocks whitelistAllows \<and> tierBelow listBlocks blacklistBlocks)"

definition codePriorityOrder ::
  "dnrRule list \<Rightarrow> dnrRule list \<Rightarrow> dnrRule list \<Rightarrow> dnrRule list \<Rightarrow> dnrRule list \<Rightarrow> bool" where
  "codePriorityOrder userAllows userBlocks whitelistAllows blacklistBlocks listBlocks =
     (tierBelow blacklistBlocks whitelistAllows \<and> tierBelow userAllows blacklistBlocks
      \<and> tierBelow userBlocks userAllows \<and> tierBelow listBlocks userBlocks)"

text \<open>The characters of a host name, and of one of its labels.\<close>

definition isDomainChar :: "char \<Rightarrow> bool" where
  "isDomainChar c =
     inClass False [(CHR ''a'', CHR ''z''), (CHR ''0'', CHR ''9''), (CHR ''-'', CHR ''-''),
                    (CHR ''.'', CHR ''.'')] c"



text \<open>The syntax trees of the domain anchor and of the tail of a hosts pattern.\<close>

definition labelClass :: rexp where
  "labelClass = CharClass False [(CHR ''a'', CHR ''z''), (CHR ''0'', CHR ''9''), (CHR ''-'', CHR ''-'')]"

definition labelGroup :: rexp where
  "labelGroup = Group (Cat (Plus labelClass) (Cat (Chr CHR ''.'') Eps))"

definition schemeAtoms :: "rexp list" where
  "schemeAtoms =
     [Bol, Chr CHR ''h'', Chr CHR ''t'', Chr CHR ''t'', Chr CHR ''p'', Opt (Chr CHR ''s''),
      Chr CHR '':'', Chr CHR ''/'', Chr CHR ''/'']"

definition anchorAtoms :: "rexp list" where
  "anchorAtoms = schemeAtoms @ [Star labelGroup]"


definition matchesSpan :: "rexp \<Rightarrow> string \<Rightarrow> nat \<Rightarrow> nat \<Rightarrow> bool" where
  "matchesSpan r s i j = (j \<in> set (ends r s i))"

definition advances :: "(nat \<Rightarrow> nat list) \<Rightarrow> (nat \<times> nat) set" where
  "advances f = {(a, b). b \<in> set (f a) \<and> a < b}"




text \<open>
  The lines the parsers look at, what one hosts line contributes, and the number of lines
  of an ad-filter text that are classified as no rule.
\<close>

definition exampleListText :: string where
  "exampleListText =
     ''! ads'' @ [LF] @ ''example.com##.banner-ad'' @ [LF] @ ''#@#.ad'' @ [LF] @ ''||ads.example.com^''"

definition skipAdblockLine :: "string \<Rightarrow> bool" where
  "skipAdblockLine l = (l = [] \<or> startsWith l ''!'' \<or> startsWith l ''['')"

definition candidateLines :: "string \<Rightarrow> string list" where
  "candidateLines text = filter (\<lambda>l. \<not> skipAdblockLine l) (map trim (split_on LF text))"

definition parseFailures :: "string \<Rightarrow> nat" where
  "parseFailures text = length (filter (\<lambda>l. parseAdblockRule l = None) (candidateLines text))"

definition hostsLineRule :: "string \<Rightarrow> parsedRule option" where
  "hostsLineRule l =
     (case matchHostsEntry l of
        None \<Rightarrow> None
      | Some m \<Rightarrow> if hostsDomain m \<noteq> [] \<and> hostsDomain m \<noteq> ''localhost''
                  then Some (NetworkRule False (hostsPattern (hostsDomain m)) l None) else None)"

definition hostsCandidateLines :: "string \<Rightarrow> string list" where
  "hostsCandidateLines text =
     filter (\<lambda>l. \<not> (l = [] \<or> startsWith l ''#'')) (map trim (split_on LF text))"

text \<open>A filter list with a cosmetic rule, an exception to it and a global cosmetic rule.\<close>

definition cosmeticText :: string where
  "cosmeticText =
     ''example.com##.banner-ad'' @ [LF] @ ''example.com#@#.banner-ad'' @ [LF] @ ''##.banner-ad''"

definition cosmeticLists :: "(string \<times> filterData) list" where
  "cosmeticLists = [(''easylist'', cachedList ''EasyList'' ''ads'' (parseAdblockList cosmeticText))]"

section \<open>Properties\<close>

subsection \<open>Pattern translator\<close>

text \<open>The translation of \<open>||domain.com^\<close>, character by character.\<close>

lemma ruleToRegex_example:
  "ruleToRegex ''||domain.com^'' =
     ''^https?://([a-z0-9-]+'' @ [BSL] @ ''.)*domain'' @ [BSL] @ ''.com'' @ [BSL] @ ''([^a-zA-Z0-9_.%-]|$)''"
  by (simp add: ruleToRegex_def startsWith_def endsWith_def suffix_to_prefix escapeRegex_def
      regexSpecial_def replaceAllChar_def replacePrefix_def replaceSuffix_def
      separatorFragment_def domainAnchorFragment_def)

lemma replaceAllChar_append: "replaceAllChar c r (a @ b) = replaceAllChar c r a @ replaceAllChar c r b"
  by (simp add: replaceAllChar_def)

lemma domainChar_plain: "isDomainChar c \<Longrightarrow> c \<noteq> CHR ''*'' \<and> c \<noteq> CHR ''^'' \<and> c \<noteq> BSL \<and> c \<noteq> CHR ''|''"
  by (auto simp: isDomainChar_def inClass_def inRangeOf_def)

lemma replaceAllChar_id: "c \<notin> set s \<Longrightarrow> replaceAllChar c r s = s"
  by (induction s) (auto simp: replaceAllChar_def)

lemma escapeRegex_domain_no_caret:
  "\<forall>c\<in>set d. isDomainChar c \<Longrightarrow> CHR ''^'' \<notin> set (escapeRegex d) \<and> CHR ''*'' \<notin> set (escapeRegex d)"
  by (induction d) (auto simp: escapeRegex_def dest: domainChar_plain)

lemma ruleToRegex_domain_sep:
  assumes "\<forall>c\<in>set d. isDomainChar c"
  shows "ruleToRegex (''||'' @ d @ ''^'') = domainAnchorFragment @ escapeRegex d @ [BSL] @ separatorFragment"
proof -
  let ?pp = "[BSL, CHR ''|'', BSL, CHR ''|'']"
  have e: "escapeRegex (''||'' @ d @ ''^'') = ?pp @ escapeRegex d @ [BSL, CHR ''^'']"
    by (simp add: escapeRegex_def regexSpecial_def)
  have nc: "CHR ''^'' \<notin> set (escapeRegex d)" "CHR ''*'' \<notin> set (escapeRegex d)"
    using escapeRegex_domain_no_caret[OF assms] by auto
  have i1: "replaceAllChar CHR ''*'' ''.*'' (escapeRegex d) = escapeRegex d"
    using nc by (simp add: replaceAllChar_id)
  have i2: "replaceAllChar CHR ''^'' separatorFragment (escapeRegex d) = escapeRegex d"
    using nc by (simp add: replaceAllChar_id)
  have c1: "replaceAllChar CHR ''*'' ''.*'' ?pp = ?pp"
    "replaceAllChar CHR ''*'' ''.*'' [BSL, CHR ''^''] = [BSL, CHR ''^'']"
    "replaceAllChar CHR ''^'' separatorFragment ?pp = ?pp"
    "replaceAllChar CHR ''^'' separatorFragment [BSL, CHR ''^''] = [BSL] @ separatorFragment"
    by (simp_all add: replaceAllChar_def)
  have r1: "replaceAllChar CHR ''*'' ''.*'' (escapeRegex (''||'' @ d @ ''^'')) = ?pp @ escapeRegex d @ [BSL, CHR ''^'']"
    by (simp only: e replaceAllChar_append i1 c1)
  have r2: "replaceAllChar CHR ''^'' separatorFragment (?pp @ escapeRegex d @ [BSL, CHR ''^''])
      = ?pp @ escapeRegex d @ [BSL] @ separatorFragment"
    by (simp only: replaceAllChar_append i2 c1)
  have r3: "replacePrefix ?pp domainAnchorFragment (?pp @ escapeRegex d @ [BSL] @ separatorFragment)
           = domainAnchorFragment @ escapeRegex d @ [BSL] @ separatorFragment"
    by (simp add: replacePrefix_def)
  have r4: "replacePrefix [BSL, CHR ''|''] ''^'' (domainAnchorFragment @ escapeRegex d @ [BSL] @ separatorFragment)
           = domainAnchorFragment @ escapeRegex d @ [BSL] @ separatorFragment"
    by (simp add: replacePrefix_def domainAnchorFragment_def)
  have r5: "replaceSuffix [BSL, CHR ''|''] ''$'' (domainAnchorFragment @ escapeRegex d @ [BSL] @ separatorFragment)
           = domainAnchorFragment @ escapeRegex d @ [BSL] @ separatorFragment"
    by (simp add: replaceSuffix_def separatorFragment_def suffix_def)
  have s: "\<not> startsWith (''||'' @ d @ ''^'') ''/''" by (simp add: startsWith_def)
  show ?thesis
    unfolding ruleToRegex_def using s by (simp only: r1 r2 r3 r4 r5 if_False simp_thms)
qed

text \<open>The parser on the domain anchor and on an escaped literal.\<close>

lemma parse_anchor:
  "foldl pstep (Parsing Normal [([], [])]) domainAnchorFragment = Parsing Normal [([], anchorAtoms)]"
  by (simp add: domainAnchorFragment_def anchorAtoms_def schemeAtoms_def labelGroup_def labelClass_def
      closeFrame_def mkSeq_def isPunctuation_def)

lemma special_punct: "regexSpecial c \<Longrightarrow> isPunctuation c"
  by (auto simp: regexSpecial_def isPunctuation_def)

lemma pstep_plain:
  "\<not> regexSpecial c \<Longrightarrow> c \<noteq> CHR ''*'' \<Longrightarrow>
     pstep (Parsing Normal ((alts, atoms) # st)) c = Parsing Normal ((alts, atoms @ [Chr c]) # st)"
  by (auto simp: regexSpecial_def)

lemma pstep_escaped:
  "regexSpecial c \<Longrightarrow>
     pstep (pstep (Parsing Normal ((alts, atoms) # st)) BSL) c = Parsing Normal ((alts, atoms @ [Chr c]) # st)"
  by (simp add: special_punct)

lemma parse_escaped:
  "CHR ''*'' \<notin> set d \<Longrightarrow>
     foldl pstep (Parsing Normal ((alts, atoms) # st)) (escapeRegex d)
       = Parsing Normal ((alts, atoms @ map Chr d) # st)"
proof (induction d arbitrary: atoms)
  case Nil
  show ?case by (simp add: escapeRegex_def)
next
  case (Cons c d)
  have rest: "foldl pstep (Parsing Normal ((alts, (atoms @ [Chr c])) # st)) (escapeRegex d)
       = Parsing Normal ((alts, (atoms @ [Chr c]) @ map Chr d) # st)"
    using Cons.IH[of "atoms @ [Chr c]"] Cons.prems by simp
  show ?case
  proof (cases "regexSpecial c")
    case True
    have "escapeRegex (c # d) = BSL # c # escapeRegex d"
      using True by (simp add: escapeRegex_def)
    then show ?thesis using rest pstep_escaped[OF True, of alts atoms st] by simp
  next
    case False
    have "escapeRegex (c # d) = c # escapeRegex d"
      using False by (simp add: escapeRegex_def)
    moreover have "c \<noteq> CHR ''*''" using Cons.prems by auto
    ultimately show ?thesis using rest pstep_plain[OF False, of alts atoms st] by simp
  qed
qed


lemma regexParse_separator_invalid:
  assumes "CHR ''*'' \<notin> set d"
  shows "regexParse (domainAnchorFragment @ escapeRegex d @ [BSL] @ separatorFragment) = Inl Invalid"
proof -
  have 1: "foldl pstep (Parsing Normal [([], [])]) (domainAnchorFragment @ escapeRegex d)
        = Parsing Normal [([], anchorAtoms @ map Chr d)]"
    by (simp only: foldl_append parse_anchor parse_escaped[OF assms])
  have 2: "foldl pstep (Parsing Normal [([], anchorAtoms @ map Chr d)]) ([BSL] @ separatorFragment)
        = Failed Invalid"
    by (simp add: separatorFragment_def isPunctuation_def)
  have "foldl pstep (Parsing Normal [([], [])]) (domainAnchorFragment @ escapeRegex d @ [BSL] @ separatorFragment)
        = Failed Invalid"
    using 1 2 by (simp only: foldl_append append_assoc[symmetric])
  then show ?thesis by (simp add: regexParse_def)
qed

lemma domainChars_no_star: "list_all isDomainChar d \<Longrightarrow> CHR ''*'' \<notin> set d"
  by (auto simp: list_all_iff isDomainChar_def inClass_def inRangeOf_def)

text \<open>
  Without the stray backslash the pattern would do what the specification asks of
  \<open>||domain.com^\<close>.
\<close>

lemma intended_separator_pattern:
  "patternMatches (domainAnchorFragment @ escapeRegex ''domain.com'' @ separatorFragment) ''https://domain.com/x'' = Some True"
  "patternMatches (domainAnchorFragment @ escapeRegex ''domain.com'' @ separatorFragment) ''https://a.domain.com/x'' = Some True"
  "patternMatches (domainAnchorFragment @ escapeRegex ''domain.com'' @ separatorFragment) ''https://notdomain.com/x'' = Some False"
  "patternMatches (domainAnchorFragment @ escapeRegex ''domain.com'' @ separatorFragment) ''https://domain.com.evil.com/x'' = Some False"
  by code_simp+

text \<open>
  C1 (the translator at every pattern \<open>||d^\<close> with \<open>d\<close> a domain): escaping runs
  first, so when the separator marker is replaced it has already become a backslash and
  a caret, and the backslash stays in front of the separator fragment. The result opens
  no group where the separator group should start and closes one at its end: it is not a
  regular expression, and the rule matches no URL at all.
\<close>

theorem domain_separator_pattern_invalid:
  assumes "list_all isDomainChar d"
  shows "ruleToRegex (''||'' @ d @ ''^'') = domainAnchorFragment @ escapeRegex d @ [BSL] @ separatorFragment
       \<and> regexParse (ruleToRegex (''||'' @ d @ ''^'')) = Inl Invalid
       \<and> patternMatches (ruleToRegex (''||'' @ d @ ''^'')) url = Some False"
proof -
  have 1: "ruleToRegex (''||'' @ d @ ''^'') = domainAnchorFragment @ escapeRegex d @ [BSL] @ separatorFragment"
    using assms by (intro ruleToRegex_domain_sep) (simp add: list_all_iff)
  have 2: "regexParse (ruleToRegex (''||'' @ d @ ''^'')) = Inl Invalid"
    unfolding 1 by (rule regexParse_separator_invalid[OF domainChars_no_star[OF assms]])
  show ?thesis using 1 2 by (simp add: patternMatches_def)
qed

text \<open>C1 at \<open>||domain.com^\<close> and the two URLs the pattern is meant to match.\<close>

theorem domain_separator_pattern_invalid_witness:
  "patternMatches (ruleToRegex ''||domain.com^'') ''https://domain.com/x'' = Some False
   \<and> patternMatches (ruleToRegex ''||domain.com^'') ''https://a.domain.com/x'' = Some False"
proof -
  have h: "list_all isDomainChar ''domain.com''"
    by (simp add: isDomainChar_def inClass_def inRangeOf_def)
  have a: "patternMatches (ruleToRegex (''||'' @ ''domain.com'' @ ''^'')) ''https://domain.com/x'' = Some False"
    using domain_separator_pattern_invalid[OF h, of "''https://domain.com/x''"] by blast
  have b: "patternMatches (ruleToRegex (''||'' @ ''domain.com'' @ ''^'')) ''https://a.domain.com/x'' = Some False"
    using domain_separator_pattern_invalid[OF h, of "''https://a.domain.com/x''"] by blast
  show ?thesis using a b by simp
qed

subsection \<open>Priorities\<close>

lemma compileToDNR_Some:
  "\<exists>d. compileToDNR r n = Some d \<and> rule_id d = n \<and> priority d = 1 \<and> action d = Block"
  by (simp add: compileToDNR_def Let_def)

lemma compileToDNR_props:
  "compileToDNR r n = Some d \<Longrightarrow> rule_id d = n \<and> priority d = 1 \<and> action d = Block"
  using compileToDNR_Some[of r n] by auto

lemma compileCustom_props:
  "compileCustomToDNR c n = Some d \<Longrightarrow>
     rule_id d = n \<and> (ctype c = ''allow'' \<and> priority d = 3 \<and> action d = Allow
                     \<or> ctype c = ''block'' \<and> priority d = 2 \<and> action d = Block)"
  by (auto simp: compileCustomToDNR_def split: if_splits)

lemma mem_map_filter: "y \<in> set (List.map_filter f xs) \<longleftrightarrow> (\<exists>x\<in>set xs. f x = Some y)"
  by (induction xs) (auto split: option.splits)

lemma listCompiled_props:
  assumes "d \<in> set (listCompiled rs)"
  shows "priority d = 1 \<and> action d = Block"
proof -
  from assms obtain p where "p \<in> set rs"
    and q: "(case p of (r, n) \<Rightarrow> if rule_type r = NetworkBlock then compileToDNR r n else None) = Some d"
    unfolding listCompiled_def mem_map_filter by blast
  obtain r n where rn: "p = (r, n)" by (cases p)
  from q rn have "compileToDNR r n = Some d" by (simp split: if_splits)
  then show ?thesis using compileToDNR_props by blast
qed

lemma customCompiled_cases:
  assumes "d \<in> set (customCompiled cs)"
  obtains c n where "(c, n) \<in> set cs" and "compileCustomToDNR c n = Some d"
proof -
  from assms obtain p where p: "p \<in> set cs"
    and q: "(case p of (c, n) \<Rightarrow> compileCustomToDNR c n) = Some d"
    unfolding customCompiled_def mem_map_filter by blast
  obtain c n where cn: "p = (c, n)" by (cases p)
  from p q cn that show thesis by simp
qed

lemma customCompiled_allow:
  assumes "\<forall>c\<in>set cs. ctype (fst c) = ''allow''" and "d \<in> set (customCompiled cs)"
  shows "priority d = 3 \<and> action d = Allow"
proof -
  from assms(2) obtain c n where cn: "(c, n) \<in> set cs" "compileCustomToDNR c n = Some d"
    by (rule customCompiled_cases)
  from assms(1) cn(1) have "ctype c = ''allow''" by fastforce
  with compileCustom_props[OF cn(2)] show ?thesis by auto
qed

lemma customCompiled_block:
  assumes "\<forall>c\<in>set cs. ctype (fst c) = ''block''" and "d \<in> set (customCompiled cs)"
  shows "priority d = 2 \<and> action d = Block"
proof -
  from assms(2) obtain c n where cn: "(c, n) \<in> set cs" "compileCustomToDNR c n = Some d"
    by (rule customCompiled_cases)
  from assms(1) cn(1) have "ctype c = ''block''" by fastforce
  with compileCustom_props[OF cn(2)] show ?thesis by auto
qed

lemma whitelistFrom_props:
  "d \<in> set (whitelistRulesFrom n ds) \<Longrightarrow> priority d = 10 \<and> action d = Allow"
  by (induction n ds rule: whitelistRulesFrom.induct) auto

lemma blacklistFrom_props:
  "d \<in> set (blacklistRulesFrom n ds) \<Longrightarrow> priority d = 5 \<and> action d = Block"
  by (induction n ds rule: blacklistRulesFrom.induct) auto

text \<open>
  C2, as stated, fails: a user-authored allow rule is compiled with priority 3 and a
  user-authored block rule with priority 2, both below the whitelist rules (10) and the
  blacklist rules (5).
\<close>

theorem priority_order_counterexample:
  "\<not> specPriorityOrder (customCompiled [(exampleAllow, 100001)])
        (customCompiled [(exampleBlock, 100002)])
        (whitelistRules [''example.com''])
        (blacklistRules [''bad.example''])
        (listCompiled [(exampleListRule, 100000)])"
  by (simp add: specPriorityOrder_def tierBelow_def customCompiled_def listCompiled_def map_filter_simps
      compileCustomToDNR_def exampleAllow_def exampleBlock_def
      whitelistRules_def blacklistRules_def compileToDNR_def Let_def)

text \<open>
  C2, amended: in every batch the whitelist allow rules carry priority 10, the blacklist
  block rules 5, the user-authored allow rules 3, the user-authored block rules 2 and the
  list-sourced block rules 1; so whitelist rules rank above blacklist rules, these above
  user allow rules, these above user block rules, and list-sourced block rules are lowest.
\<close>

theorem priority_tiers:
  assumes allow: "\<forall>c\<in>set cas. ctype (fst c) = ''allow''"
    and block: "\<forall>c\<in>set cbs. ctype (fst c) = ''block''"
  shows "(\<forall>d\<in>set (whitelistRules whitelist). priority d = 10 \<and> action d = Allow)
       \<and> (\<forall>d\<in>set (blacklistRules blacklist). priority d = 5 \<and> action d = Block)
       \<and> (\<forall>d\<in>set (customCompiled cas). priority d = 3 \<and> action d = Allow)
       \<and> (\<forall>d\<in>set (customCompiled cbs). priority d = 2 \<and> action d = Block)
       \<and> (\<forall>d\<in>set (listCompiled rs). priority d = 1 \<and> action d = Block)
       \<and> codePriorityOrder (customCompiled cas) (customCompiled cbs)
            (whitelistRules whitelist) (blacklistRules blacklist) (listCompiled rs)"
proof -
  have 1: "\<forall>d\<in>set (whitelistRules whitelist). priority d = 10 \<and> action d = Allow"
    using whitelistFrom_props by (simp add: whitelistRules_def)
  have 2: "\<forall>d\<in>set (blacklistRules blacklist). priority d = 5 \<and> action d = Block"
    using blacklistFrom_props by (simp add: blacklistRules_def)
  have 3: "\<forall>d\<in>set (customCompiled cas). priority d = 3 \<and> action d = Allow"
    using customCompiled_allow[OF allow] by blast
  have 4: "\<forall>d\<in>set (customCompiled cbs). priority d = 2 \<and> action d = Block"
    using customCompiled_block[OF block] by blast
  have 5: "\<forall>d\<in>set (listCompiled rs). priority d = 1 \<and> action d = Block"
    using listCompiled_props by blast
  have 6: "codePriorityOrder (customCompiled cas) (customCompiled cbs)
            (whitelistRules whitelist) (blacklistRules blacklist) (listCompiled rs)"
    using 1 2 3 4 5 by (simp add: codePriorityOrder_def tierBelow_def)
  show ?thesis using 1 2 3 4 5 6 by blast
qed

text \<open>The tiers of C2 at one rule of each kind.\<close>

theorem priority_tiers_witness:
  "map priority (whitelistRules [''example.com'']) = [10, 10]
   \<and> map priority (blacklistRules [''bad.example'']) = [5]
   \<and> map priority (customCompiled [(exampleAllow, 100001)]) = [3]
   \<and> map priority (customCompiled [(exampleBlock, 100002)]) = [2]
   \<and> map priority (listCompiled [(exampleListRule, 100000)]) = [1]
   \<and> codePriorityOrder (customCompiled [(exampleAllow, 100001)]) (customCompiled [(exampleBlock, 100002)])
        (whitelistRules [''example.com'']) (blacklistRules [''bad.example''])
        (listCompiled [(exampleListRule, 100000)])"
proof -
  have a: "\<forall>c\<in>set [(exampleAllow, 100001 :: nat)]. ctype (fst c) = ''allow''"
    by (simp add: exampleAllow_def)
  have b: "\<forall>c\<in>set [(exampleBlock, 100002 :: nat)]. ctype (fst c) = ''block''"
    by (simp add: exampleBlock_def)
  have v: "map priority (whitelistRules [''example.com'']) = [10, 10]
   \<and> map priority (blacklistRules [''bad.example'']) = [5]
   \<and> map priority (customCompiled [(exampleAllow, 100001)]) = [3]
   \<and> map priority (customCompiled [(exampleBlock, 100002)]) = [2]
   \<and> map priority (listCompiled [(exampleListRule, 100000)]) = [1]"
    by (simp add: customCompiled_def listCompiled_def map_filter_simps
      compileCustomToDNR_def exampleAllow_def exampleBlock_def exampleListRule_def
      whitelistRules_def blacklistRules_def compileToDNR_def Let_def)
  show ?thesis
    using priority_tiers[OF a b, of "[''example.com'']" "[''bad.example'']" "[(exampleListRule, 100000)]"] v
    by simp
qed






subsection \<open>Domain matcher\<close>

lemma scanDomains_eq:
  "scanDomains (a, e) ds d =
     (a \<or> (\<exists>x\<in>set ds. \<not> startsWith x ''~'' \<and> domainMatches d x),
      e \<or> (\<exists>x\<in>set ds. startsWith x ''~'' \<and> domainMatches d (tl x)))"
  by (induction ds arbitrary: a e) auto

text \<open>
  \<open>ruleApplies\<close> on any \<open>domains\<close> array, whatever the order of its entries: the array is
  empty, or an inclusion entry matches or there is none, and no exclusion entry matches.
\<close>

lemma ruleApplies_char:
  "ruleApplies (ElementHideRule ds sel) d =
    (ds = [] \<or> ((\<exists>x\<in>set ds. \<not> startsWith x ''~'' \<and> domainMatches d x) \<or> (\<forall>x\<in>set ds. startsWith x ''~''))
       \<and> \<not> (\<exists>x\<in>set ds. startsWith x ''~'' \<and> domainMatches d (tl x)))"
  by (auto simp: ruleApplies_def scanDomains_eq list_all_iff)

lemma applies_char:
  assumes inc: "\<forall>i\<in>set incs. \<not> startsWith i ''~''"
  shows "applies incs excs d =
           ((incs = [] \<or> (\<exists>i\<in>set incs. domainMatches d i)) \<and> \<not> (\<exists>e\<in>set excs. domainMatches d e))"
proof -
  let ?ds = "incs @ map (\<lambda>e. CHR ''~'' # e) excs"
  have a: "(\<exists>x\<in>set ?ds. \<not> startsWith x ''~'' \<and> domainMatches d x) = (\<exists>i\<in>set incs. domainMatches d i)"
    using inc by (auto simp: startsWith_def)
  have b: "(\<forall>x\<in>set ?ds. startsWith x ''~'') = (incs = [])"
    using inc by (cases incs) (auto simp: startsWith_def)
  have "(\<exists>x\<in>set ?ds. startsWith x ''~'' \<and> domainMatches d (tl x))
      = ((\<exists>x\<in>set incs. startsWith x ''~'' \<and> domainMatches d (tl x))
         \<or> (\<exists>e\<in>set excs. startsWith (CHR ''~'' # e) ''~'' \<and> domainMatches d e))"
    by (simp add: bex_Un)
  also have "\<dots> = (\<exists>e\<in>set excs. domainMatches d e)"
    using inc by (simp add: startsWith_def)
  finally have c: "(\<exists>x\<in>set ?ds. startsWith x ''~'' \<and> domainMatches d (tl x))
                   = (\<exists>e\<in>set excs. domainMatches d e)" .
  show ?thesis
    unfolding applies_def ruleApplies_char a b c by auto
qed

lemma domainMatches_iff: "domainMatches d e \<longleftrightarrow> d = e \<or> (\<exists>sub. d = sub @ ''.'' @ e)"
  by (auto simp: domainMatches_def endsWith_def suffix_def)

text \<open>
  C4: the five cases of the specification; for include entries that are plain domains (no
  leading tilde), the rule applies exactly when the include list is empty or some include
  entry matches, and no exclude entry matches, so that a matching exclude defeats every
  include; and a domain matches an entry exactly when it is the entry or ends with a dot
  followed by the entry.
\<close>

theorem ruleApplies_four_way:
  assumes "\<forall>i\<in>set incs. \<not> startsWith i ''~''"
  shows "applies [] [] d
       \<and> applies [''example.com''] [] ''sub.example.com''
       \<and> \<not> applies [''example.com''] [] ''notexample.com''
       \<and> \<not> applies [] [''example.com''] ''example.com''
       \<and> applies [] [''example.com''] ''other.com''
       \<and> (applies incs excs d \<longleftrightarrow>
            (incs = [] \<or> (\<exists>i\<in>set incs. domainMatches d i)) \<and> \<not> (\<exists>e\<in>set excs. domainMatches d e))
       \<and> (domainMatches d e \<longleftrightarrow> d = e \<or> (\<exists>sub. d = sub @ ''.'' @ e))"
proof -
  have 1: "applies [] [] d" by (simp add: applies_def ruleApplies_def)
  have 2: "applies [''example.com''] [] ''sub.example.com''"
    by (simp add: applies_def ruleApplies_def startsWith_def domainMatches_def endsWith_def
        suffix_to_prefix)
  have 3: "\<not> applies [''example.com''] [] ''notexample.com''"
    by (simp add: applies_def ruleApplies_def startsWith_def domainMatches_def endsWith_def
        suffix_to_prefix)
  have 4: "\<not> applies [] [''example.com''] ''example.com''"
    by (simp add: applies_def ruleApplies_def startsWith_def domainMatches_def endsWith_def
        suffix_to_prefix)
  have 5: "applies [] [''example.com''] ''other.com''"
    by (simp add: applies_def ruleApplies_def startsWith_def domainMatches_def endsWith_def
        suffix_to_prefix)
  show ?thesis using 1 2 3 4 5 applies_char[OF assms] domainMatches_iff by blast
qed

text \<open>C4 at two include entries and one exclude entry below one of them.\<close>

theorem ruleApplies_four_way_witness:
  "applies [''example.com'', ''example.org''] [''ads.example.com''] ''www.example.com''
   \<and> \<not> applies [''example.com'', ''example.org''] [''ads.example.com''] ''x.ads.example.com''"
proof -
  have h: "\<forall>i\<in>set [''example.com'', ''example.org'']. \<not> startsWith i ''~''"
    by (simp add: startsWith_def)
  have a: "domainMatches ''www.example.com'' ''example.com''"
    and b: "\<not> domainMatches ''www.example.com'' ''ads.example.com''"
    and c: "domainMatches ''x.ads.example.com'' ''ads.example.com''"
    by (simp_all add: domainMatches_def endsWith_def suffix_to_prefix)
  show ?thesis
    using ruleApplies_four_way[OF h, of "''www.example.com''" "[''ads.example.com'']"]
      ruleApplies_four_way[OF h, of "''x.ads.example.com''" "[''ads.example.com'']"] a b c
    by simp
qed

subsection \<open>Rule ids\<close>

lemma ids_ok_snoc:
  "ids_ok (acc, n) \<Longrightarrow> rule_id d = n \<Longrightarrow> firstRuleId \<le> n \<Longrightarrow> ids_ok (acc @ [d], Suc n)"
  by (auto simp: ids_ok_def sorted_wrt_append less_Suc_eq)

lemma ids_ok_skip: "ids_ok (acc, n) \<Longrightarrow> ids_ok (acc, Suc n)"
  by (auto simp: ids_ok_def less_Suc_eq)

lemma compileListRules_ids:
  "ids_ok (acc, n) \<Longrightarrow> firstRuleId \<le> n \<Longrightarrow>
     ids_ok (compileListRules (acc, n) rs) \<and> n \<le> snd (compileListRules (acc, n) rs)"
proof (induction rs arbitrary: acc n)
  case Nil
  then show ?case by simp
next
  case (Cons r rs)
  obtain d where d: "compileToDNR r n = Some d" "rule_id d = n"
    using compileToDNR_Some by blast
  have "ids_ok (acc @ [d], Suc n)" using Cons.prems d by (simp add: ids_ok_snoc)
  with Cons.IH[of "acc @ [d]" "Suc n"] Cons.IH[of acc n] Cons.prems d
  show ?case by (auto simp: le_Suc_eq)
qed

lemma compileLists_ids:
  "ids_ok st \<Longrightarrow> firstRuleId \<le> snd st \<Longrightarrow>
     ids_ok (compileLists st fls) \<and> firstRuleId \<le> snd (compileLists st fls)"
proof (induction fls arbitrary: st)
  case Nil
  then show ?case by simp
next
  case (Cons p fls)
  obtain i fd where p: "p = (i, fd)" by (cases p)
  obtain acc n where st: "st = (acc, n)" by (cases st)
  show ?case
  proof (cases "list_rules fd")
    case None
    then show ?thesis using Cons p by simp
  next
    case (Some rs)
    have "ids_ok (compileListRules st rs) \<and> n \<le> snd (compileListRules st rs)"
      using compileListRules_ids[of acc n rs] Cons.prems st by simp
    then show ?thesis using Cons.IH[of "compileListRules st rs"] Cons.prems p Some st
      by (auto simp: Let_def)
  qed
qed

lemma compileCustomRules_ids:
  "ids_ok (acc, n) \<Longrightarrow> firstRuleId \<le> n \<Longrightarrow> ids_ok (compileCustomRules (acc, n) cs)"
proof (induction cs arbitrary: acc n)
  case Nil
  then show ?case by simp
next
  case (Cons c cs)
  show ?case
  proof (cases "compileCustomToDNR c n")
    case None
    then show ?thesis using Cons.IH[of acc "Suc n"] Cons.prems by (simp add: ids_ok_skip)
  next
    case (Some d)
    then have "rule_id d = n" by (auto simp: compileCustomToDNR_def split: if_splits)
    then show ?thesis
      using Cons.IH[of "acc @ [d]" "Suc n"] Cons.prems Some by (simp add: ids_ok_snoc)
  qed
qed

lemma compileBatch_ids_ok: "ids_ok (compileCustomRules (compileLists ([], firstRuleId) fls) cs)"
proof -
  have 0: "ids_ok ([], firstRuleId)" by (simp add: ids_ok_def)
  have 1: "ids_ok (compileLists ([], firstRuleId) fls)
           \<and> firstRuleId \<le> snd (compileLists ([], firstRuleId) fls)"
    using compileLists_ids[OF 0] by simp
  obtain acc n where st: "compileLists ([], firstRuleId) fls = (acc, n)"
    by (cases "compileLists ([], firstRuleId) fls")
  show ?thesis using compileCustomRules_ids[of acc n cs] 1 st by simp
qed

lemma ranges_disjoint:
  "\<forall>(c1, s1, e1) \<in> set ruleRanges. \<forall>(c2, s2, e2) \<in> set ruleRanges.
      c1 \<noteq> c2 \<longrightarrow> e1 \<le> s2 \<or> e2 \<le> s1"
  by (simp add: ruleRanges_def)

lemma parse_example:
  "parseAdblockList ''||ads.example.com^'' =
     [NetworkRule False (ruleToRegex ''||ads.example.com^'') ''||ads.example.com^'' (Some emptyOptions)]"
  by (simp add: parseAdblockList_def trim_def isWhiteSpace_def startsWith_def parseAdblockRule_def
      parseNetworkRule_def isDot_def isLineTerminator_def Let_def)

text \<open>
  C5, as stated, fails: the one network rule of a list of category \<open>ads\<close> is compiled
  with id 100000, outside the range declared for \<open>ads\<close> and inside the one for \<open>custom\<close>.
\<close>

theorem list_rule_id_counterexample:
  "map rule_id (compileBatch adsList []) = [100000]
   \<and> \<not> inRange ''ads'' 100000 \<and> inRange ''custom'' 100000"
  by (simp add: adsList_def compileBatch_def cachedList_def parse_example compileToDNR_def
      firstRuleId_def maxListRules_def Let_def inRange_def ruleRanges_def)

text \<open>
  C5, amended: in every batch compiled by \<open>compileRules\<close> the ids increase strictly along
  the batch, so no two rules share an id, and every id is at least 100000, the floor of the
  \<open>custom\<close> range, whatever the category of the list the rule comes from; the declared
  ranges are pairwise disjoint.
\<close>

theorem compileBatch_ids:
  "sorted_wrt (<) (map rule_id (compileBatch fls cs))
   \<and> distinct (map rule_id (compileBatch fls cs))
   \<and> (\<forall>d\<in>set (compileBatch fls cs). firstRuleId \<le> rule_id d)
   \<and> (\<forall>(c1, s1, e1) \<in> set ruleRanges. \<forall>(c2, s2, e2) \<in> set ruleRanges.
         c1 \<noteq> c2 \<longrightarrow> e1 \<le> s2 \<or> e2 \<le> s1)"
proof -
  have ok: "ids_ok (compileCustomRules (compileLists ([], firstRuleId) fls) cs)"
    by (rule compileBatch_ids_ok)
  then have s: "sorted_wrt (<) (map rule_id (compileBatch fls cs))"
    by (simp add: ids_ok_def compileBatch_def)
  then have d: "distinct (map rule_id (compileBatch fls cs))"
    by (simp add: strict_sorted_iff)
  have g: "\<forall>d\<in>set (compileBatch fls cs). firstRuleId \<le> rule_id d"
    using ok by (simp add: ids_ok_def compileBatch_def)
  show ?thesis using s d g ranges_disjoint by blast
qed

text \<open>The ids of C5 for one list rule followed by two custom rules.\<close>

theorem compileBatch_ids_witness:
  "map rule_id (compileBatch adsList [exampleBlock, exampleAllow]) = [100000, 100001, 100002]"
proof -
  have "map rule_id (compileBatch adsList [exampleBlock, exampleAllow]) = [100000, 100001, 100002]"
    by (simp add: adsList_def compileBatch_def cachedList_def parse_example compileToDNR_def
      firstRuleId_def maxListRules_def Let_def compileCustomToDNR_def exampleBlock_def exampleAllow_def)
  with compileBatch_ids[of adsList "[exampleBlock, exampleAllow]"] show ?thesis by simp
qed

subsection \<open>Capacity ceiling\<close>

lemma compileListRules_length:
  "length (fst (compileListRules (acc, n) rs)) =
     length acc + length (filter (\<lambda>r. rule_type r = NetworkBlock) rs)"
proof (induction rs arbitrary: acc n)
  case Nil
  then show ?case by simp
next
  case (Cons r rs)
  obtain d where d: "compileToDNR r n = Some d"
    using compileToDNR_Some by blast
  show ?case using Cons.IH[of "acc @ [d]" "Suc n"] Cons.IH[of acc n] d by simp
qed

lemma single_list_length:
  "length (compileListBatch [(i, cachedList nm cat rs)]) =
     length (filter (\<lambda>r. rule_type r = NetworkBlock) rs)"
proof -
  obtain acc n where st: "compileListRules ([], firstRuleId) rs = (acc, n)"
    by (cases "compileListRules ([], firstRuleId) rs")
  have "length acc = length (filter (\<lambda>r. rule_type r = NetworkBlock) rs)"
    using compileListRules_length[of "[]" firstRuleId rs] st by simp
  then show ?thesis by (simp add: compileListBatch_def cachedList_def st Let_def)
qed

text \<open>
  C6 (evaluation at one list of 30001 network-block rules): the ceiling is tested only
  after a whole list has been compiled, so all 30001 rules are in the list-sourced part of
  the batch.
\<close>

theorem list_ceiling_exceeded:
  "length (compileListBatch
             [(''easylist'', cachedList ''EasyList'' ''ads'' (replicate 30001 exampleListRule))])
     = 30001
   \<and> maxListRules < 30001"
  by (simp add: single_list_length exampleListRule_def maxListRules_def)

subsection \<open>Cosmetic lookup\<close>

lemma collectSelectors_eq: "collectSelectors acc rs d = acc @ hideSelectors rs d"
  by (induction rs arbitrary: acc) (auto simp: hideSelectors_def split: parsedRule.splits)

lemma collectLists_eq:
  "collectLists acc fls d =
     acc @ concat (map (\<lambda>(i, fd). case list_rules fd of None \<Rightarrow> [] | Some rs \<Rightarrow> hideSelectors rs d) fls)"
  by (induction fls arbitrary: acc) (auto simp: collectSelectors_eq split: option.splits)

lemma set_collectLists_Cons:
  "set (collectLists [] ((i, fd) # fls) d) =
     (case list_rules fd of None \<Rightarrow> {} | Some rs \<Rightarrow> set (hideSelectors rs d))
     \<union> set (collectLists [] fls d)"
  by (simp add: collectLists_eq split: option.splits)

lemma mem_collectLists:
  "sel \<in> set (collectLists [] fls d) \<longleftrightarrow>
     (\<exists>i fd rs. (i, fd) \<in> set fls \<and> list_rules fd = Some rs \<and> sel \<in> set (hideSelectors rs d))"
proof (induction fls)
  case Nil
  show ?case by simp
next
  case (Cons p fls)
  obtain i fd where p: "p = (i, fd)" by (cases p)
  show ?case
  proof (cases "list_rules fd")
    case None
    then show ?thesis unfolding p set_collectLists_Cons using Cons.IH by auto
  next
    case (Some rs)
    then show ?thesis unfolding p set_collectLists_Cons using Cons.IH by auto
  qed
qed

lemma setInsertAll_props:
  "distinct seen \<Longrightarrow>
     distinct (setInsertAll seen xs) \<and> set (setInsertAll seen xs) = set seen \<union> set xs"
  by (induction xs arbitrary: seen) auto

lemma set_hideSelectors:
  "set (hideSelectors rs d) =
     {sel. \<exists>ds. ElementHideRule ds sel \<in> set rs \<and> ruleApplies (ElementHideRule ds sel) d}"
  by (induction rs) (auto simp: hideSelectors_def split: parsedRule.splits if_splits)

lemma hideSelectors_filter:
  "hideSelectors (filter (\<lambda>r. rule_type r \<noteq> ElementException) rs) d = hideSelectors rs d"
  by (induction rs) (auto simp: hideSelectors_def split: parsedRule.splits)

lemma collectLists_without:
  "collectLists [] (withoutExceptions fls) d = collectLists [] fls d"
  unfolding collectLists_eq withoutExceptions_def
  by (induction fls) (auto simp: hideSelectors_filter split: option.splits)

text \<open>
  C9: for every domain the result of \<open>getElementHidingRules\<close> has no duplicates and holds
  exactly the selectors of the element-hide rules of the filter lists that apply to the
  domain; taking every element-hiding exception rule out of the lists leaves the result
  unchanged, so an exception rule never removes a selector.
\<close>

theorem getElementHidingRules_selectors:
  "distinct (getElementHidingRules fls d) \<and>
   set (getElementHidingRules fls d) =
     {sel. \<exists>i fd rs ds. (i, fd) \<in> set fls \<and> list_rules fd = Some rs
                        \<and> ElementHideRule ds sel \<in> set rs
                        \<and> ruleApplies (ElementHideRule ds sel) d} \<and>
   getElementHidingRules (withoutExceptions fls) d = getElementHidingRules fls d"
proof -
  have 1: "distinct (getElementHidingRules fls d)"
    using setInsertAll_props[of "[]" "collectLists [] fls d"]
    by (simp add: getElementHidingRules_def)
  have 2: "set (getElementHidingRules fls d) = set (collectLists [] fls d)"
    using setInsertAll_props[of "[]" "collectLists [] fls d"]
    by (simp add: getElementHidingRules_def)
  have 3: "set (collectLists [] fls d) =
             {sel. \<exists>i fd rs ds. (i, fd) \<in> set fls \<and> list_rules fd = Some rs
                        \<and> ElementHideRule ds sel \<in> set rs
                        \<and> ruleApplies (ElementHideRule ds sel) d}"
  proof (rule set_eqI)
    fix sel
    show "sel \<in> set (collectLists [] fls d) \<longleftrightarrow>
            sel \<in> {sel. \<exists>i fd rs ds. (i, fd) \<in> set fls \<and> list_rules fd = Some rs
                        \<and> ElementHideRule ds sel \<in> set rs
                        \<and> ruleApplies (ElementHideRule ds sel) d}"
      unfolding mem_collectLists set_hideSelectors by blast
  qed
  have 4: "getElementHidingRules (withoutExceptions fls) d = getElementHidingRules fls d"
    by (simp add: getElementHidingRules_def collectLists_without)
  show ?thesis using 1 2 3 4 by simp
qed

lemma cosmetic_parse:
  "parseAdblockList cosmeticText =
     [ElementHideRule [''example.com''] ''.banner-ad'',
      ElementExceptionRule [''example.com''] ''.banner-ad'',
      ElementHideRule [] ''.banner-ad'']"
  by (simp add: cosmeticText_def parseAdblockList_def trim_def isWhiteSpace_def startsWith_def
      parseAdblockRule_def parseElementHidingRule_def isDot_def isLineTerminator_def
      splitDomains_def Let_def)

text \<open>
  C9 on a list where an exception names the very selector that two hide rules give: the
  selector is returned, once.
\<close>

theorem getElementHidingRules_selectors_witness:
  "getElementHidingRules cosmeticLists ''www.example.com'' = [''.banner-ad'']
   \<and> getElementHidingRules (withoutExceptions cosmeticLists) ''www.example.com'' = [''.banner-ad'']"
proof -
  have v: "getElementHidingRules cosmeticLists ''www.example.com'' = [''.banner-ad'']"
    by (simp add: getElementHidingRules_def cosmeticLists_def cachedList_def cosmetic_parse
        ruleApplies_def domainMatches_def endsWith_def suffix_to_prefix startsWith_def)
  have "getElementHidingRules (withoutExceptions cosmeticLists) ''www.example.com''
          = getElementHidingRules cosmeticLists ''www.example.com''"
    using getElementHidingRules_selectors[of cosmeticLists "''www.example.com''"] by blast
  with v show ?thesis by simp
qed

subsection \<open>Toggling a filter list\<close>

text \<open>
  C10 (evaluation at \<open>toggleFilterList('constructor', false)\<close>): \<open>constructor\<close> is not
  a key of the configured sources, yet \<open>this.sources['constructor']\<close> is the inherited,
  truthy \<open>Object\<close>; the guard passes and \<open>compileRules\<close> runs: on an engine whose cache
  holds one list and whose \<open>compiledRules\<close> is still empty the call fills
  \<open>compiledRules\<close> and hands a batch to the backend.
\<close>

theorem toggle_inherited_key_recompiles:
  "sources loadedEngine ''constructor'' = None \<and>
   compiledRules loadedEngine = [] \<and>
   map rule_id (compiledRules (toggleFilterList fetch now loadedEngine ''constructor'' False))
     = [100000] \<and>
   length (syncLog (toggleFilterList fetch now loadedEngine ''constructor'' False))
     = Suc (length (syncLog loadedEngine))"
  by (simp add: loadedEngine_def adsList_def newEngine_def defaultSources_def toggleFilterList_def
      getProperty_def objectPrototypeNames_def compileRules_def compileBatch_def cachedList_def
      parse_example compileToDNR_def firstRuleId_def maxListRules_def Let_def)

text \<open>
  For an id that is neither a key of the sources nor the name of a property of
  \<open>Object.prototype\<close> the call changes nothing.
\<close>

lemma toggle_unknown_noop:
  "sources st ident = None \<Longrightarrow> ident \<notin> set objectPrototypeNames \<Longrightarrow>
     toggleFilterList fetch now st ident enabled = st"
  by (simp add: toggleFilterList_def getProperty_def)

subsection \<open>Parsing filter lists\<close>

lemma parseAdblockLines_eq:
  "parseAdblockLines acc ls =
     acc @ List.map_filter parseAdblockRule (filter (\<lambda>l. \<not> skipAdblockLine l) (map trim ls))"
  by (induction ls arbitrary: acc) (auto simp: skipAdblockLine_def Let_def split: option.splits)

lemma parseHostsLines_eq:
  "parseHostsLines acc ls =
     acc @ List.map_filter hostsLineRule (filter (\<lambda>l. \<not> (l = [] \<or> startsWith l ''#'')) (map trim ls))"
  by (induction ls arbitrary: acc) (auto simp: hostsLineRule_def Let_def split: option.splits)

lemma length_map_filter:
  "length (List.map_filter f xs) + length (filter (\<lambda>x. f x = None) xs) = length xs"
  by (induction xs) (auto split: option.splits)

lemma unclassified_line: "parseAdblockRule ''#@#.ad'' = None"
  by (simp add: parseAdblockRule_def parseElementHidingRule_def startsWith_def isDot_def isLineTerminator_def)

text \<open>
  C7, as stated, fails: the text \<open>#@#.ad\<close> has one line that cannot be classified and
  the empty text has none, yet the parser returns the same result for both and the engine
  that stores the list ends in the same state; no count of parse failures is kept anywhere.
\<close>

theorem parse_failure_counter_counterexample:
  "parseFailures ''#@#.ad'' = 1 \<and> parseFailures [] = 0
   \<and> parseFilterList ''#@#.ad'' ''adblock'' = parseFilterList [] ''adblock''
   \<and> storeFilterList newEngine ''easylist'' (Some ''EasyList'') (Some ''ads'') ''adblock'' 0 ''#@#.ad''
     = storeFilterList newEngine ''easylist'' (Some ''EasyList'') (Some ''ads'') ''adblock'' 0 []"
  by (simp add: parseFailures_def candidateLines_def skipAdblockLine_def trim_def isWhiteSpace_def
      startsWith_def unclassified_line storeFilterList_def parseFilterList_def parseAdblockList_def Let_def)

text \<open>
  C7, amended: for every text and format the parser returns a list of rules (no operation
  it uses can raise); the result holds, in order, the rule of each line that is neither
  empty nor a comment and can be classified, and a line that cannot be classified
  contributes nothing. The number of rules and the number of unclassified lines add up to
  the number of lines looked at, but the parser does not report the latter.
\<close>

theorem parser_skips_unclassified:
  "parseFilterList text format =
     (if format = ''hosts'' then List.map_filter hostsLineRule (hostsCandidateLines text)
      else List.map_filter parseAdblockRule (candidateLines text))
   \<and> length (parseAdblockList text) + parseFailures text = length (candidateLines text)"
proof -
  have a: "parseAdblockList text = List.map_filter parseAdblockRule (candidateLines text)"
    by (simp add: parseAdblockList_def parseAdblockLines_eq candidateLines_def)
  have h: "parseHostsFile text = List.map_filter hostsLineRule (hostsCandidateLines text)"
    by (simp add: parseHostsFile_def parseHostsLines_eq hostsCandidateLines_def)
  have n: "length (parseAdblockList text) + parseFailures text = length (candidateLines text)"
    by (simp only: a parseFailures_def length_map_filter)
  show ?thesis using a h n by (simp add: parseFilterList_def)
qed

text \<open>C7 on a text with a comment, a cosmetic rule, an unclassifiable line and a network rule.\<close>

theorem parser_skips_unclassified_witness:
  "length (parseFilterList exampleListText ''adblock'') = 2 \<and> parseFailures exampleListText = 1"
proof -
  have c: "candidateLines exampleListText
             = [''example.com##.banner-ad'', ''#@#.ad'', ''||ads.example.com^'']"
    by (simp add: exampleListText_def candidateLines_def skipAdblockLine_def trim_def
        isWhiteSpace_def startsWith_def)
  have 1: "parseAdblockRule ''example.com##.banner-ad'' \<noteq> None"
    by (simp add: parseAdblockRule_def parseElementHidingRule_def isDot_def isLineTerminator_def)
  have 2: "parseAdblockRule ''||ads.example.com^'' \<noteq> None"
    by (simp add: parseAdblockRule_def)
  have f: "parseFailures exampleListText = 1"
    using 1 2 by (simp add: parseFailures_def c unclassified_line)
  have "length (parseAdblockList exampleListText) + parseFailures exampleListText
          = length (candidateLines exampleListText)"
    using parser_skips_unclassified[of exampleListText "''adblock''"] by blast
  then have "length (parseAdblockList exampleListText) = 2" using f c by simp
  then show ?thesis using f by (simp add: parseFilterList_def)
qed

subsection \<open>The meaning of patterns\<close>

















text \<open>The fuel of the star is enough: it matches exactly the chains of non-empty matches.\<close>

lemma starEnds_cases:
  "j \<in> set (starEnds (Suc n) f i) \<longleftrightarrow> j = i \<or> (\<exists>k\<in>set (f i). i < k \<and> j \<in> set (starEnds n f k))"
  by auto

lemma starEnds_sound: "j \<in> set (starEnds n f i) \<Longrightarrow> (i, j) \<in> (advances f)\<^sup>*"
proof (induction n arbitrary: i)
  case 0
  then show ?case by simp
next
  case (Suc n)
  from Suc.prems have "j = i \<or> (\<exists>k\<in>set (f i). i < k \<and> j \<in> set (starEnds n f k))"
    by (simp only: starEnds_cases)
  then show ?case
  proof
    assume "j = i"
    then show ?thesis by simp
  next
    assume "\<exists>k\<in>set (f i). i < k \<and> j \<in> set (starEnds n f k)"
    then obtain k where k: "k \<in> set (f i)" "i < k" "j \<in> set (starEnds n f k)" by blast
    have "(i, k) \<in> advances f" using k by (simp add: advances_def)
    moreover have "(k, j) \<in> (advances f)\<^sup>*" using Suc.IH[OF k(3)] .
    ultimately show ?thesis by (rule converse_rtrancl_into_rtrancl)
  qed
qed

lemma starEnds_complete:
  assumes "(i, j) \<in> (advances f)\<^sup>*"
    and "\<forall>a\<le>L. \<forall>b\<in>set (f a). b \<le> L"
    and "i \<le> L" and "L - i \<le> n"
  shows "j \<in> set (starEnds n f i)"
  using assms(1,3,4)
proof (induction arbitrary: n rule: converse_rtrancl_induct)
  case base
  then show ?case by (cases n) simp_all
next
  case (step y z)
  from step.hyps(1) have yz: "z \<in> set (f y)" "y < z" by (simp_all add: advances_def)
  with assms(2) step.prems(1) have zL: "z \<le> L" by blast
  with yz(2) step.prems(2) obtain n' where n: "n = Suc n'" "L - z \<le> n'"
    by (cases n) auto
  have "j \<in> set (starEnds n' f z)" using step.IH[OF zL n(2)] .
  with yz show ?case unfolding n(1) starEnds_cases by blast
qed

lemma starEnds_bound:
  assumes "\<forall>a\<le>L. \<forall>b\<in>set (f a). b \<le> L"
  shows "i \<le> L \<Longrightarrow> j \<in> set (starEnds n f i) \<Longrightarrow> i \<le> j \<and> j \<le> L"
proof (induction n arbitrary: i)
  case 0
  then show ?case by simp
next
  case (Suc n)
  from Suc.prems(2) have "j = i \<or> (\<exists>k\<in>set (f i). i < k \<and> j \<in> set (starEnds n f k))"
    by (simp only: starEnds_cases)
  then show ?case
  proof
    assume "j = i"
    then show ?thesis using Suc.prems(1) by simp
  next
    assume "\<exists>k\<in>set (f i). i < k \<and> j \<in> set (starEnds n f k)"
    then obtain k where k: "k \<in> set (f i)" "i < k" "j \<in> set (starEnds n f k)" by blast
    have "k \<le> L" using assms Suc.prems(1) k(1) by blast
    from Suc.IH[OF this k(3)] k(2) show ?thesis by simp
  qed
qed

lemma ends_bound: "i \<le> length s \<Longrightarrow> j \<in> set (ends r s i) \<Longrightarrow> i \<le> j \<and> j \<le> length s"
proof (induction r arbitrary: i j)
  case (Cat r1 r2)
  from Cat.prems(2) have "\<exists>k\<in>set (ends r1 s i). j \<in> set (ends r2 s k)" by simp
  then obtain k where k: "k \<in> set (ends r1 s i)" "j \<in> set (ends r2 s k)" by blast
  from Cat.IH(1)[OF Cat.prems(1) k(1)] have "i \<le> k \<and> k \<le> length s" .
  with Cat.IH(2)[OF _ k(2)] show ?case by simp
next
  case (Star r)
  have b: "\<forall>a\<le>length s. \<forall>b\<in>set (ends r s a). b \<le> length s" using Star.IH by blast
  from Star.prems(2) have "j \<in> set (starEnds (length s - i) (ends r s) i)" by simp
  from starEnds_bound[OF b Star.prems(1) this] show ?case .
next
  case (Plus r)
  have b: "\<forall>a\<le>length s. \<forall>b\<in>set (ends r s a). b \<le> length s" using Plus.IH by blast
  from Plus.prems(2) have "\<exists>k\<in>set (ends r s i). j \<in> set (starEnds (length s - k) (ends r s) k)"
    by simp
  then obtain k where k: "k \<in> set (ends r s i)"
      "j \<in> set (starEnds (length s - k) (ends r s) k)" by blast
  from Plus.IH[OF Plus.prems(1) k(1)] have ik: "i \<le> k \<and> k \<le> length s" .
  from starEnds_bound[OF b _ k(2)] ik show ?case by simp
next
  case (Alt r1 r2)
  from Alt.prems(2) have "j \<in> set (ends r1 s i) \<or> j \<in> set (ends r2 s i)" by simp
  then show ?case using Alt.IH(1)[OF Alt.prems(1)] Alt.IH(2)[OF Alt.prems(1)] by blast
next
  case (Opt r)
  from Opt.prems(2) have "j = i \<or> j \<in> set (ends r s i)" by (auto split: if_splits)
  then show ?case using Opt.IH[OF Opt.prems(1)] Opt.prems(1) by auto
next
  case (Group r)
  from Group.prems(2) have "j \<in> set (ends r s i)" by simp
  then show ?case by (rule Group.IH[OF Group.prems(1)])
next
  case Eps
  then show ?case by simp
next
  case (Chr c)
  then show ?case by (simp split: if_splits)
next
  case AnyChar
  then show ?case by (simp split: if_splits)
next
  case (CharClass neg items)
  then show ?case by (simp split: if_splits)
next
  case Bol
  then show ?case by (simp split: if_splits)
next
  case Eol
  then show ?case by (simp split: if_splits)
qed

lemma star_semantics:
  assumes "i \<le> length s"
  shows "matchesSpan (Star r) s i j \<longleftrightarrow> (i, j) \<in> {(a, b). matchesSpan r s a b \<and> a < b}\<^sup>*"
proof -
  have adv: "{(a, b). matchesSpan r s a b \<and> a < b} = advances (ends r s)"
    by (simp add: advances_def matchesSpan_def)
  have b: "\<forall>a\<le>length s. \<forall>b\<in>set (ends r s a). b \<le> length s" using ends_bound by blast
  show ?thesis
    unfolding adv
    using starEnds_sound[of j "length s - i" "ends r s" i]
      starEnds_complete[of i j "ends r s" "length s" "length s - i", OF _ b assms]
    by (auto simp: matchesSpan_def)
qed


lemma hosts_example_rejects:
  "patternMatches (hostsPattern ''malware.test'') ''https://notmalware.test/'' = Some False"
  "patternMatches (hostsPattern ''malware.test'') ''https://malware.test.evil.com/'' = Some False"
  "patternMatches (hostsPattern ''malware.test'') ''https://localhost/'' = Some False"
  by code_simp+

subsection \<open>Hosts format\<close>













end
